theory Spec2Isabelle
  imports
    Complex_Main
    "HOL-Library.AList"
    "HOL-Library.Char_ord"
    "HOL-Library.List_Lexorder"
    "HOL-Library.Product_Lexorder"
    "HOL-Library.Word"
begin

section \<open>PoEDataImporter (DumpProcessing.py): the data model\<close>

text \<open>
  The importer is a pipeline over pandas data frames. A frame is modelled by what the
  code reads of it: its rows in order, each with its row label, and its column labels.
  Everything that raises in Python is a value \<open>Inl e\<close> of \<open>error + 'a\<close>.

  Three library functions are parameters of the model:
  \<^item> \<open>td :: string \<Rightarrow> timestamp option\<close> is \<open>pd.to_datetime\<close> on one string: \<open>None\<close> where
    it raises. A column is parsed element by element, and one failure raises for the
    column. A timestamp is an integer number of time units (days in the examples), so
    that a difference of timestamps, pandas' Timedelta, is an integer too. Strings that
    parse to the missing timestamp NaT are not modelled.
  \<^item> \<open>fs :: string \<Rightarrow> 'v csv_row list option\<close> is the file system seen through
    \<open>pd.read_csv(path, sep=";")\<close>: the rows of the file in file order, \<open>None\<close> where the
    read raises. Every row has the five columns League, Date, Get, Pay, Value.
  \<^item> \<open>gsum :: 'v list \<Rightarrow> 'v\<close> is the kernel of \<open>groupby(...).sum()\<close> on the Values of one
    group, in row order. The Value column of a dump has one dtype: float64, or int64
    when every value of the file is an integer literal; \<open>'v\<close> is the type of the numbers
    of that dtype. The kernel is \<open>running_sum add zero\<close> (pandas before 1.2) or
    \<open>kahan_sum add sub zero\<close> (pandas 1.2 and later), where \<open>add\<close>, \<open>sub\<close> and \<open>zero\<close> are the
    addition, the subtraction and the zero of the dtype: those of IEEE 754 binary64,
    which round, for float64; those of the integers modulo 2^64 for int64.

  Values that are NaN or infinite are not modelled. Where NaN enters a table of int64
  sums (\<open>unstack\<close>, a padded column, a join) pandas converts the column to float64: the
  conversion is not modelled, and a cell \<open>Some v\<close> of such a column stands for the float64
  of \<open>v\<close>. The missing-value sentinel NaN of a table cell is \<open>None\<close>.
\<close>

datatype error =
    IndexError          \<comment> \<open>a list or an Index read out of range\<close>
  | KeyError            \<comment> \<open>a missing row or column label\<close>
  | ValueError          \<comment> \<open>unpacking of the wrong length, overlapping columns in a join\<close>
  | DateParseError      \<comment> \<open>\<open>pd.to_datetime\<close> on a string that is no date\<close>
  | FileNotFoundError   \<comment> \<open>\<open>pd.read_csv\<close> on a path that cannot be read\<close>

type_synonym timestamp = int

text \<open>A row of \<open>df_files\<close>, the catalog built by \<open>get_file_df\<close>.\<close>

record file_row =
  League :: string
  Date :: timestamp
  File :: string

text \<open>A row of a dump file as \<open>read_csv\<close> returns it.\<close>

record 'v csv_row =
  csv_League :: string
  csv_Date :: string
  Get :: string
  Pay :: string
  csv_Value :: 'v

text \<open>
  A row of the frame \<open>extract_df\<close> returns: the columns League, Date, Currency, Value.
  On return Date holds the elapsed time.
\<close>

record 'v league_row =
  row_League :: string
  row_Date :: int
  Currency :: string
  Value :: 'v

text \<open>A frame with the default integer row labels: each row with its label.\<close>

type_synonym 'r frame = "(nat \<times> 'r) list"

text \<open>
  The grouped table of one league, and the joined table of all of them. A column label
  is the pair (currency, league); a row is its label with one cell per column. The row
  label of the source is the pair ("Value", elapsed time); its constant first component
  is left out.
\<close>

record 'v table =
  columns :: "(string \<times> string) list"
  rows :: "(int \<times> 'v option list) list"

section \<open>Library functions of Python and pandas\<close>

text \<open>
  \<open>s.split(sep)\<close> for a one-character separator: one segment more than there are
  separators in \<open>s\<close>, empty segments kept.
\<close>

fun split_on :: "char \<Rightarrow> string \<Rightarrow> string list" where
  "split_on sep [] = [[]]"
| "split_on sep (c # cs) =
     (if c = sep then [] # split_on sep cs
      else (case split_on sep cs of
              [] \<Rightarrow> [[c]]
            | s # ss \<Rightarrow> (c # s) # ss))"

text \<open>\<open>sub in s\<close> on strings.\<close>

fun starts_with :: "string \<Rightarrow> string \<Rightarrow> bool" where
  "starts_with [] s = True"
| "starts_with (x # xs) [] = False"
| "starts_with (x # xs) (c # cs) = (x = c \<and> starts_with xs cs)"

fun contains :: "string \<Rightarrow> string \<Rightarrow> bool" where
  "contains sub [] = (sub = [])"
| "contains sub (c # cs) = (starts_with sub (c # cs) \<or> contains sub cs)"

text \<open>\<open>pd.to_datetime\<close> on a column of strings.\<close>

fun to_datetime :: "(string \<Rightarrow> timestamp option) \<Rightarrow> string list \<Rightarrow> error + timestamp list" where
  "to_datetime td [] = Inr []"
| "to_datetime td (s # ss) =
     (case td s of
        None \<Rightarrow> Inl DateParseError
      | Some d \<Rightarrow>
          (case to_datetime td ss of
             Inl e \<Rightarrow> Inl e
           | Inr ds \<Rightarrow> Inr (d # ds)))"

text \<open>\<open>Series.unique()\<close>: the distinct values in the order of their first occurrence.\<close>

fun unique :: "'a list \<Rightarrow> 'a list" where
  "unique [] = []"
| "unique (x # xs) = x # unique (filter (\<lambda>y. y \<noteq> x) xs)"

text \<open>
  The kernel of \<open>groupby(...).sum()\<close> on the values of one group, in the arithmetic of
  their dtype. Before pandas 1.2 it is the running sum \<open>sumx += val\<close> from zero.
\<close>

definition running_sum :: "('v \<Rightarrow> 'v \<Rightarrow> 'v) \<Rightarrow> 'v \<Rightarrow> 'v list \<Rightarrow> 'v" where
  "running_sum add zero vs = foldl add zero vs"

text \<open>
  From pandas 1.2 on the running sum is compensated (Kahan):
  \<^verbatim>\<open>y = val - compensation; t = sumx + y; compensation = t - sumx - y; sumx = t\<close>
  with \<open>sumx\<close> and \<open>compensation\<close> zero at the start.
\<close>

definition kahan_sum :: "('v \<Rightarrow> 'v \<Rightarrow> 'v) \<Rightarrow> ('v \<Rightarrow> 'v \<Rightarrow> 'v) \<Rightarrow> 'v \<Rightarrow> 'v list \<Rightarrow> 'v" where
  "kahan_sum add sub zero vs =
     fst (foldl (\<lambda>(sumx, compensation) val.
                   (let y = sub val compensation;
                        t = add sumx y
                    in (t, sub (sub t sumx) y)))
                (zero, zero) vs)"

text \<open>\<open>pd.read_csv(file_path, sep=";")\<close>: the rows of the file, labelled 0, 1, 2, ...\<close>

definition read_csv :: "(string \<Rightarrow> 'v csv_row list option) \<Rightarrow> string \<Rightarrow> error + 'v csv_row frame" where
  "read_csv fs file_path =
     (case fs file_path of
        None \<Rightarrow> Inl FileNotFoundError
      | Some rs \<Rightarrow> Inr (enumerate 0 rs))"

section \<open>get_currency_file_paths and get_file_df\<close>

text \<open>
  \<open>get_currency_file_paths\<close>: \<open>found\<close> is what \<open>glob\<close> returns, in its order; the paths
  that contain "currency" are kept, in that order.
\<close>

definition get_currency_file_paths :: "string list \<Rightarrow> string list" where
  "get_currency_file_paths found = filter (contains ''currency'') found"

text \<open>
  One step of the dict comprehension of \<open>get_file_df\<close>: the key \<open>file.split(".")[0]\<close> and
  the value \<open>{"Date": file.split(".")[1], "File": file}\<close>. Index 1 raises IndexError where
  the name has no second segment.
\<close>

definition file_entry :: "string \<Rightarrow> error + string \<times> string \<times> string" where
  "file_entry file =
     (case split_on CHR ''.'' file of
        league # date # rest \<Rightarrow> Inr (league, date, file)
      | _ \<Rightarrow> Inl IndexError)"

text \<open>
  The comprehension: a Python dict keeps the position of a key at its first insertion
  and the value of its last one, which is \<open>AList.update\<close>.
\<close>

fun file_dict :: "(string \<times> string \<times> string) list \<Rightarrow> string list \<Rightarrow>
    error + (string \<times> string \<times> string) list" where
  "file_dict d [] = Inr d"
| "file_dict d (file # file_list) =
     (case file_entry file of
        Inl e \<Rightarrow> Inl e
      | Inr (league, v) \<Rightarrow> file_dict (AList.update league v d) file_list)"

text \<open>
  \<open>get_file_df\<close>. The frame of an empty dict has no column "Date", so reading it raises
  KeyError. \<open>sort_values(by=["Date"], ascending=False)\<close> is modelled as the stable
  descending sort (rows of equal date keep their order); pandas' default sorting
  algorithm promises no order among rows of equal date, and nothing proved below depends
  on that order.
\<close>

definition get_file_df :: "(string \<Rightarrow> timestamp option) \<Rightarrow> string list \<Rightarrow> error + file_row list" where
  "get_file_df td file_list =
     (case file_dict [] file_list of
        Inl e \<Rightarrow> Inl e
      | Inr d \<Rightarrow>
          if d = [] then Inl KeyError
          else (case to_datetime td (map (\<lambda>(league, date, file). date) d) of
                  Inl e \<Rightarrow> Inl e
                | Inr dates \<Rightarrow>
                    Inr (sort_key (\<lambda>r. - Date r)
                          (map (\<lambda>((league, date, file), dt).
                                  \<lparr>League = league, Date = dt, File = file\<rparr>)
                               (zip d dates)))))"

section \<open>extract_df\<close>

text \<open>
  \<open>extract_df\<close>, line by line: read; keep the rows with Pay = "Chaos Orb" (they keep
  their labels); select and rename the columns; parse the Date column of the rows kept;
  subtract the Date of the row labelled 0, which raises KeyError where no row kept has
  label 0.
\<close>

definition extract_df :: "(string \<Rightarrow> timestamp option) \<Rightarrow> (string \<Rightarrow> 'v csv_row list option) \<Rightarrow>
    string \<Rightarrow> error + 'v league_row frame" where
  "extract_df td fs file_path =
     (case read_csv fs file_path of
        Inl e \<Rightarrow> Inl e
      | Inr raw \<Rightarrow>
          (let kept = filter (\<lambda>(i, r). Pay r = ''Chaos Orb'') raw in
           case to_datetime td (map (\<lambda>(i, r). csv_Date r) kept) of
             Inl e \<Rightarrow> Inl e
           | Inr dates \<Rightarrow>
               (let dated = map (\<lambda>((i, r), d).
                                   (i, \<lparr>row_League = csv_League r, row_Date = d,
                                        Currency = Get r, Value = csv_Value r\<rparr>))
                                (zip kept dates) in
                case map_of dated 0 of
                  None \<Rightarrow> Inl KeyError
                | Some r0 \<Rightarrow>
                    Inr (map (\<lambda>(i, r). (i, r\<lparr>row_Date := row_Date r - row_Date r0\<rparr>))
                             dated))))"

section \<open>group_df\<close>

text \<open>
  The cell of a group: what the kernel \<open>gsum\<close> makes of the Values of the rows with that
  key, in row order, and NaN where no row has the key (\<open>unstack\<close> fills the absent
  combinations).
\<close>

definition group_cell :: "('v list \<Rightarrow> 'v) \<Rightarrow> 'v league_row list \<Rightarrow> int \<Rightarrow> string \<times> string \<Rightarrow>
    'v option" where
  "group_cell gsum rs d col =
     (let vs = map Value
                 (filter (\<lambda>r. row_Date r = d \<and> (Currency r, row_League r) = col) rs)
      in if vs = [] then None else Some (gsum vs))"

text \<open>
  \<open>df.groupby(["Date", "Currency", "League"]).sum().unstack(level=0).T\<close>: one row per
  distinct Date, ascending; one column per distinct (Currency, League), ascending.
\<close>

definition group_df :: "('v list \<Rightarrow> 'v) \<Rightarrow> 'v league_row frame \<Rightarrow> 'v table" where
  "group_df gsum fr =
     (let rs = map snd fr;
          dates = sort (remdups (map row_Date rs));
          cols = sort (remdups (map (\<lambda>r. (Currency r, row_League r)) rs))
      in \<lparr>columns = cols,
          rows = map (\<lambda>d. (d, map (group_cell gsum rs d) cols)) dates\<rparr>)"

section \<open>get_latest_league_data, get_currency_list, get_latest_currency_list\<close>

text \<open>
  \<open>get_latest_league_data\<close>: the rows of the maximal Date, whose File column must unpack
  into exactly one name. The maximum of an empty column is NaT, which no row equals.
\<close>

definition get_latest_league_data :: "(string \<Rightarrow> timestamp option) \<Rightarrow>
    (string \<Rightarrow> 'v csv_row list option) \<Rightarrow> file_row list \<Rightarrow> error + 'v league_row frame" where
  "get_latest_league_data td fs files =
     (let latest = (if files = [] then []
                    else filter (\<lambda>r. Date r = Max (set (map Date files))) files)
      in case map File latest of
           [latest_league_file_dir] \<Rightarrow> extract_df td fs latest_league_file_dir
         | _ \<Rightarrow> Inl ValueError)"

definition get_currency_list :: "'v league_row frame \<Rightarrow> string list" where
  "get_currency_list fr = unique (map (\<lambda>(i, r). Currency r) fr)"

definition get_latest_currency_list :: "(string \<Rightarrow> timestamp option) \<Rightarrow>
    (string \<Rightarrow> 'v csv_row list option) \<Rightarrow> file_row list \<Rightarrow> error + string list" where
  "get_latest_currency_list td fs files =
     (case get_latest_league_data td fs files of
        Inl e \<Rightarrow> Inl e
      | Inr fr \<Rightarrow> Inr (sort (get_currency_list fr)))"

section \<open>fill_league_currency\<close>

text \<open>
  \<open>df[key] = value\<close> for a scalar: a new last column, or the overwriting of the column
  that has the label.
\<close>

definition set_column :: "'v table \<Rightarrow> string \<times> string \<Rightarrow> 'v option \<Rightarrow> 'v table" where
  "set_column t key v =
     (if key \<in> set (columns t)
      then t\<lparr>rows := map (\<lambda>(k, xs).
                            (k, map (\<lambda>(c, x). if c = key then v else x) (zip (columns t) xs)))
                         (rows t)\<rparr>
      else \<lparr>columns = columns t @ [key],
            rows = map (\<lambda>(k, xs). (k, xs @ [v])) (rows t)\<rparr>)"

text \<open>
  The loop of \<open>fill_league_currency\<close>. \<open>league_currency_list\<close> is computed once, before
  the loop; \<open>df.columns[0][1]\<close> is read at each assignment and raises IndexError on a
  table without columns.
\<close>

fun fill_loop :: "string list \<Rightarrow> string list \<Rightarrow> 'v table \<Rightarrow> error + 'v table" where
  "fill_loop league_currency_list [] t = Inr t"
| "fill_loop league_currency_list (c # cs) t =
     (if c \<notin> set league_currency_list
      then (case columns t of
              [] \<Rightarrow> Inl IndexError
            | col0 # _ \<Rightarrow> fill_loop league_currency_list cs (set_column t (c, snd col0) None))
      else fill_loop league_currency_list cs t)"

text \<open>\<open>df.sort_index(axis=1)\<close>: the columns in ascending order of their labels.\<close>

definition sort_index_columns :: "'v table \<Rightarrow> 'v table" where
  "sort_index_columns t =
     \<lparr>columns = sort (columns t),
      rows = map (\<lambda>(k, xs). (k, map snd (sort_key fst (zip (columns t) xs)))) (rows t)\<rparr>"

definition fill_league_currency :: "'v table \<Rightarrow> string list \<Rightarrow> error + 'v table" where
  "fill_league_currency t latest_currency_list =
     (case fill_loop (map fst (columns t)) latest_currency_list t of
        Inl e \<Rightarrow> Inl e
      | Inr t' \<Rightarrow> Inr (sort_index_columns t'))"

section \<open>get_data\<close>

text \<open>
  \<open>df.join(other)\<close> with pandas' defaults: a left join on the row labels. Every row of
  \<open>df\<close> is kept, in order, once for each row of \<open>other\<close> with its label, and once with
  NaN in the columns of \<open>other\<close> where \<open>other\<close> has no such row; the rows of \<open>other\<close> whose
  label \<open>df\<close> lacks are not in the result. A column label in both tables raises
  ValueError (no suffix is given).
\<close>

definition join :: "'v table \<Rightarrow> 'v table \<Rightarrow> error + 'v table" where
  "join t other =
     (if set (columns t) \<inter> set (columns other) \<noteq> {} then Inl ValueError
      else Inr
        \<lparr>columns = columns t @ columns other,
         rows = concat (map (\<lambda>(k, xs).
                   (case map snd (filter (\<lambda>(k', ys). k' = k) (rows other)) of
                      [] \<Rightarrow> [(k, xs @ replicate (length (columns other)) None)]
                    | ms \<Rightarrow> map (\<lambda>ys. (k, xs @ ys)) ms))
                 (rows t))\<rparr>)"

text \<open>\<open>df.reset_index(drop=True)\<close>: the row labels become 0, 1, 2, ...\<close>

definition reset_index :: "'v table \<Rightarrow> 'v table" where
  "reset_index t = t\<lparr>rows := zip (map int [0..<length (rows t)]) (map snd (rows t))\<rparr>"

text \<open>
  The three calls \<open>get_data\<close> makes on each file: \<open>extract_df\<close>, \<open>group_df\<close>,
  \<open>fill_league_currency\<close>.
\<close>

definition league_table :: "(string \<Rightarrow> timestamp option) \<Rightarrow> (string \<Rightarrow> 'v csv_row list option) \<Rightarrow>
    ('v list \<Rightarrow> 'v) \<Rightarrow>
    string list \<Rightarrow> string \<Rightarrow> error + 'v table" where
  "league_table td fs gsum latest_currency file_path =
     (case extract_df td fs file_path of
        Inl e \<Rightarrow> Inl e
      | Inr league \<Rightarrow> fill_league_currency (group_df gsum league) latest_currency)"

text \<open>The loop of \<open>get_data\<close> over \<open>file_paths[1:]\<close>.\<close>

fun join_loop :: "(string \<Rightarrow> timestamp option) \<Rightarrow> (string \<Rightarrow> 'v csv_row list option) \<Rightarrow>
    ('v list \<Rightarrow> 'v) \<Rightarrow>
    string list \<Rightarrow> string list \<Rightarrow> 'v table \<Rightarrow> error + 'v table" where
  "join_loop td fs gsum latest_currency [] t = Inr t"
| "join_loop td fs gsum latest_currency (file_path # file_paths) t =
     (case league_table td fs gsum latest_currency file_path of
        Inl e \<Rightarrow> Inl e
      | Inr league_grp \<Rightarrow>
          (case join t league_grp of
             Inl e \<Rightarrow> Inl e
           | Inr t' \<Rightarrow> join_loop td fs gsum latest_currency file_paths t'))"

text \<open>
  \<open>get_data\<close> up to its last line: the joined table with the elapsed times still as row
  labels.
\<close>

definition get_data_joined :: "(string \<Rightarrow> timestamp option) \<Rightarrow> (string \<Rightarrow> 'v csv_row list option) \<Rightarrow>
    ('v list \<Rightarrow> 'v) \<Rightarrow>
    file_row list \<Rightarrow> string list \<Rightarrow> error + 'v table" where
  "get_data_joined td fs gsum files latest_currency =
     (case map File files of
        [] \<Rightarrow> Inl IndexError
      | file_path # file_paths \<Rightarrow>
          (case league_table td fs gsum latest_currency file_path of
             Inl e \<Rightarrow> Inl e
           | Inr t \<Rightarrow> join_loop td fs gsum latest_currency file_paths t))"

definition get_data :: "(string \<Rightarrow> timestamp option) \<Rightarrow> (string \<Rightarrow> 'v csv_row list option) \<Rightarrow>
    ('v list \<Rightarrow> 'v) \<Rightarrow>
    file_row list \<Rightarrow> string list \<Rightarrow> error + 'v table" where
  "get_data td fs gsum files latest_currency =
     (case get_data_joined td fs gsum files latest_currency of
        Inl e \<Rightarrow> Inl e
      | Inr t \<Rightarrow> Inr (reset_index t))"

section \<open>__init__\<close>

text \<open>The fields \<open>__init__\<close> sets; \<open>found\<close> is what \<open>glob\<close> returns.\<close>

record 'v importer =
  currency_file_path_list :: "string list"
  df_files :: "file_row list"
  latest_currency :: "string list"
  league_names :: "string list"
  df :: "'v table"

definition init :: "(string \<Rightarrow> timestamp option) \<Rightarrow> (string \<Rightarrow> 'v csv_row list option) \<Rightarrow>
    ('v list \<Rightarrow> 'v) \<Rightarrow>
    string list \<Rightarrow> error + 'v importer" where
  "init td fs gsum found =
     (let paths = get_currency_file_paths found in
      case get_file_df td paths of
        Inl e \<Rightarrow> Inl e
      | Inr files \<Rightarrow>
          (case get_latest_currency_list td fs files of
             Inl e \<Rightarrow> Inl e
           | Inr latest \<Rightarrow>
               (case get_data td fs gsum files latest of
                  Inl e \<Rightarrow> Inl e
                | Inr t \<Rightarrow>
                    Inr \<lparr>currency_file_path_list = paths, df_files = files,
                         latest_currency = latest, league_names = map League files,
                         df = t\<rparr>)))"

section \<open>Notions used in the statements\<close>

text \<open>
  The row \<open>extract_df\<close> makes of the file row \<open>r\<close> when \<open>r0\<close> is the row labelled 0 and
  both dates parse: its Date is the date of \<open>r\<close> minus the date of \<open>r0\<close>.
\<close>

definition elapsed_row :: "(string \<Rightarrow> timestamp option) \<Rightarrow> 'v csv_row \<Rightarrow> 'v csv_row \<Rightarrow> 'v league_row" where
  "elapsed_row td r0 r =
     \<lparr>row_League = csv_League r,
      row_Date = the (td (csv_Date r)) - the (td (csv_Date r0)),
      Currency = Get r, Value = csv_Value r\<rparr>"

text \<open>The league name \<open>get_file_df\<close> reads off a file name: \<open>file.split(".")[0]\<close>.\<close>

definition league_of :: "string \<Rightarrow> string" where
  "league_of file = hd (split_on CHR ''.'' file)"

text \<open>
  The date segment \<open>get_file_df\<close> reads off a file name, \<open>file.split(".")[1]\<close>, for a
  name of two segments or more.
\<close>

definition date_of :: "string \<Rightarrow> string" where
  "date_of file = split_on CHR ''.'' file ! 1"

text \<open>
  \<open>df.loc[k, col]\<close> on a table: \<open>None\<close> where the table has no row labelled \<open>k\<close> or no
  column labelled \<open>col\<close>, else the cell, \<open>Some None\<close> for NaN.
\<close>

definition cell :: "'v table \<Rightarrow> int \<Rightarrow> string \<times> string \<Rightarrow> 'v option option" where
  "cell t k col =
     (case map_of (rows t) k of
        None \<Rightarrow> None
      | Some xs \<Rightarrow> map_of (zip (columns t) xs) col)"

text \<open>A table is well formed when every row has one cell per column.\<close>

definition well_formed :: "'v table \<Rightarrow> bool" where
  "well_formed t = list_all (\<lambda>(k, xs). length xs = length (columns t)) (rows t)"

text \<open>
  The column labels \<open>fill_league_currency\<close> adds to \<open>t\<close>: one for each listed currency
  that no column of \<open>t\<close> has, with the league of the first column of \<open>t\<close>.
\<close>

definition added_columns :: "'v table \<Rightarrow> string list \<Rightarrow> (string \<times> string) set" where
  "added_columns t latest_currency_list =
     {(c, snd (hd (columns t))) |c.
        c \<in> set latest_currency_list \<and> c \<notin> fst ` set (columns t)}"

text \<open>
  The cells a table contributes to the row of the joined table labelled \<open>k\<close>: its own
  row labelled \<open>k\<close>, and NaN in each of its columns where it has no such row.
\<close>

definition row_at :: "'v table \<Rightarrow> int \<Rightarrow> 'v option list" where
  "row_at t k =
     (case map_of (rows t) k of
        None \<Rightarrow> replicate (length (columns t)) None
      | Some xs \<Rightarrow> xs)"

section \<open>Example dumps\<close>

text \<open>
  The values of \<open>pd.to_datetime\<close> on the dates of the examples, in days since
  1970-01-01; every other string is taken not to parse.
\<close>

definition example_td :: "string \<Rightarrow> timestamp option" where
  "example_td = map_of
     [(''2019-09-06'', 18145), (''2019-09-07'', 18146),
      (''2019-12-13'', 18243), (''2019-12-14'', 18244),
      (''2020-03-13'', 18334), (''2020-03-14'', 18335),
      (''2020-06-19'', 18432), (''2020-06-20'', 18433),
      (''2020-09-18'', 18523)]"

text \<open>Metamorph: two snapshots of one currency, and a row that is not priced in Chaos Orb.\<close>

definition metamorph_csv :: "real csv_row list" where
  "metamorph_csv =
     [\<lparr>csv_League = ''Metamorph'', csv_Date = ''2019-12-13'', Get = ''Exalted Orb'',
       Pay = ''Chaos Orb'', csv_Value = 150\<rparr>,
      \<lparr>csv_League = ''Metamorph'', csv_Date = ''2019-12-13'', Get = ''Chaos Orb'',
       Pay = ''Exalted Orb'', csv_Value = 140\<rparr>,
      \<lparr>csv_League = ''Metamorph'', csv_Date = ''2019-12-14'', Get = ''Exalted Orb'',
       Pay = ''Chaos Orb'', csv_Value = 155\<rparr>]"

text \<open>Delirium, the newest league: one snapshot of two currencies.\<close>

definition delirium_csv :: "real csv_row list" where
  "delirium_csv =
     [\<lparr>csv_League = ''Delirium'', csv_Date = ''2020-03-13'', Get = ''Exalted Orb'',
       Pay = ''Chaos Orb'', csv_Value = 120\<rparr>,
      \<lparr>csv_League = ''Delirium'', csv_Date = ''2020-03-13'', Get = ''Awakener Orb'',
       Pay = ''Chaos Orb'', csv_Value = 300\<rparr>]"

text \<open>Blight: the later snapshot is the first row of the file.\<close>

definition blight_csv :: "real csv_row list" where
  "blight_csv =
     [\<lparr>csv_League = ''Blight'', csv_Date = ''2019-09-07'', Get = ''Exalted Orb'',
       Pay = ''Chaos Orb'', csv_Value = 160\<rparr>,
      \<lparr>csv_League = ''Blight'', csv_Date = ''2019-09-06'', Get = ''Exalted Orb'',
       Pay = ''Chaos Orb'', csv_Value = 158\<rparr>]"

text \<open>Harvest: the first row is not priced in Chaos Orb, the later rows are.\<close>

definition harvest_csv :: "real csv_row list" where
  "harvest_csv =
     [\<lparr>csv_League = ''Harvest'', csv_Date = ''2020-06-19'', Get = ''Chaos Orb'',
       Pay = ''Exalted Orb'', csv_Value = 130\<rparr>,
      \<lparr>csv_League = ''Harvest'', csv_Date = ''2020-06-19'', Get = ''Exalted Orb'',
       Pay = ''Chaos Orb'', csv_Value = 131\<rparr>,
      \<lparr>csv_League = ''Harvest'', csv_Date = ''2020-06-20'', Get = ''Exalted Orb'',
       Pay = ''Chaos Orb'', csv_Value = 133\<rparr>]"

text \<open>Heist: rows, none of them priced in Chaos Orb.\<close>

definition heist_csv :: "real csv_row list" where
  "heist_csv =
     [\<lparr>csv_League = ''Heist'', csv_Date = ''2020-09-18'', Get = ''Chaos Orb'',
       Pay = ''Exalted Orb'', csv_Value = 90\<rparr>,
      \<lparr>csv_League = ''Heist'', csv_Date = ''2020-09-18'', Get = ''Divine Orb'',
       Pay = ''Exalted Orb'', csv_Value = 5\<rparr>]"

definition example_fs :: "string \<Rightarrow> real csv_row list option" where
  "example_fs = map_of
     [(''poe/Metamorph.2019-12-13.currency.csv'', metamorph_csv),
      (''poe/Delirium.2020-03-13.currency.csv'', delirium_csv),
      (''poe/Blight.2019-09-06.currency.csv'', blight_csv),
      (''poe/Harvest.2020-06-19.currency.csv'', harvest_csv),
      (''poe/Heist.2020-09-18.currency.csv'', heist_csv)]"

text \<open>
  The Values of the examples are integers and halves of small size: numbers of float64
  whose sums float64 addition gives exactly, so that on them the addition of the dtype
  is the addition of the reals.
\<close>

definition example_sum :: "real list \<Rightarrow> real" where
  "example_sum = running_sum (+) 0"

text \<open>What \<open>glob\<close> finds: Metamorph before Delirium, and a file that is no currency dump.\<close>

definition example_found :: "string list" where
  "example_found =
     [''poe/Metamorph.2019-12-13.currency.csv'',
      ''poe/Metamorph.2019-12-13.items.csv'',
      ''poe/Delirium.2020-03-13.currency.csv'']"

section \<open>Properties of extract_df\<close>

lemma to_datetime_total:
  "\<forall>s\<in>set ss. td s \<noteq> None \<Longrightarrow> to_datetime td ss = Inr (map (\<lambda>s. the (td s)) ss)"
  by (induction ss) auto

lemma to_datetime_fail:
  "\<exists>s\<in>set ss. td s = None \<Longrightarrow> to_datetime td ss = Inl DateParseError"
proof (induction ss)
  case Nil
  then show ?case by simp
next
  case (Cons a ss)
  show ?case
  proof (cases "td a")
    case None
    then show ?thesis by simp
  next
    case (Some d)
    with Cons.prems have "\<exists>s\<in>set ss. td s = None" by auto
    then have "to_datetime td ss = Inl DateParseError" by (rule Cons.IH)
    with Some show ?thesis by simp
  qed
qed

lemma map_of_enumerate_pos:
  "0 < n \<Longrightarrow> map_of (filter Q (enumerate n rs)) 0 = None"
  by (auto simp: map_of_eq_None_iff in_set_enumerate_eq)

lemma map_of_kept_0:
  "map_of (filter (\<lambda>(i, r). P r) (enumerate 0 rs)) 0 =
     (case rs of [] \<Rightarrow> None | r0 # _ \<Rightarrow> if P r0 then Some r0 else None)"
  by (cases rs) (simp_all add: map_of_enumerate_pos)

lemma kept_unparsed_iff:
  "(\<exists>(i, x)\<in>set (filter (\<lambda>(i, x). P x) (enumerate n rs)). Q x) \<longleftrightarrow>
   (\<exists>x\<in>set rs. P x \<and> Q x)"
  by (induction rs arbitrary: n) auto

text \<open>
  What \<open>extract_df\<close> does on a readable file, by cases: a date of a kept row that does
  not parse; else no row labelled 0 among the kept rows; else the kept rows, each dated
  from the first row of the file.
\<close>

lemma extract_df_cases:
  assumes "fs file_path = Some rs"
  shows "extract_df td fs file_path =
     (let kept = filter (\<lambda>(i, r). Pay r = ''Chaos Orb'') (enumerate 0 rs) in
      if \<exists>(i, r)\<in>set kept. td (csv_Date r) = None then Inl DateParseError
      else (case rs of
              [] \<Rightarrow> Inl KeyError
            | r0 # _ \<Rightarrow>
                if Pay r0 \<noteq> ''Chaos Orb'' then Inl KeyError
                else Inr (map (\<lambda>(i, r). (i, elapsed_row td r0 r)) kept)))"
proof -
  define kept where "kept = filter (\<lambda>(i, r). Pay r = ''Chaos Orb'') (enumerate 0 rs)"
  show ?thesis
  proof (cases "\<exists>(i, r)\<in>set kept. td (csv_Date r) = None")
    case True
    then have "\<exists>s\<in>set (map (\<lambda>(i, r). csv_Date r) kept). td s = None"
      by force
    then have "to_datetime td (map (\<lambda>(i, r). csv_Date r) kept) = Inl DateParseError"
      by (rule to_datetime_fail)
    with True assms show ?thesis
      by (simp add: extract_df_def read_csv_def kept_def [symmetric])
  next
    case False
    define ds where "ds = map (\<lambda>s. the (td s)) (map (\<lambda>(i, r). csv_Date r) kept)"
    from False have "\<forall>s\<in>set (map (\<lambda>(i, r). csv_Date r) kept). td s \<noteq> None"
      by force
    then have parsed: "to_datetime td (map (\<lambda>(i, r). csv_Date r) kept) = Inr ds"
      unfolding ds_def by (rule to_datetime_total)
    let ?mk = "\<lambda>r. \<lparr>row_League = csv_League r, row_Date = the (td (csv_Date r)),
                     Currency = Get r, Value = csv_Value r\<rparr>"
    have dated: "map (\<lambda>((i, r), d).
                       (i, \<lparr>row_League = csv_League r, row_Date = d,
                            Currency = Get r, Value = csv_Value r\<rparr>))
                    (zip kept ds)
                 = map (\<lambda>(i, r). (i, ?mk r)) kept"
      unfolding ds_def by (induction kept) auto
    have look: "map_of (map (\<lambda>(i, r). (i, ?mk r)) kept) 0 =
        (case rs of [] \<Rightarrow> None | r0 # _ \<Rightarrow> if Pay r0 = ''Chaos Orb'' then Some (?mk r0) else None)"
    proof -
      have "map_of (map (\<lambda>(i, r). (i, ?mk r)) kept) 0 = map_option ?mk (map_of kept 0)"
        by (simp add: map_of_map)
      also have "map_of kept 0 =
          (case rs of [] \<Rightarrow> None | r0 # _ \<Rightarrow> if Pay r0 = ''Chaos Orb'' then Some r0 else None)"
        unfolding kept_def by (rule map_of_kept_0)
      finally show ?thesis by (simp split: list.splits)
    qed
    have "extract_df td fs file_path =
        (case map_of (map (\<lambda>(i, r). (i, ?mk r)) kept) 0 of
           None \<Rightarrow> Inl KeyError
         | Some r0 \<Rightarrow>
             Inr (map (\<lambda>(i, r). (i, r\<lparr>row_Date := row_Date r - row_Date r0\<rparr>))
                      (map (\<lambda>(i, r). (i, ?mk r)) kept)))"
      using assms
      by (simp add: extract_df_def read_csv_def kept_def [symmetric] parsed dated Let_def
          del: map_map)
    also have "\<dots> = (case rs of
              [] \<Rightarrow> Inl KeyError
            | r0 # _ \<Rightarrow>
                if Pay r0 \<noteq> ''Chaos Orb'' then Inl KeyError
                else Inr (map (\<lambda>(i, r). (i, elapsed_row td r0 r)) kept))"
      unfolding look by (simp add: elapsed_row_def case_prod_unfold split: list.splits)
    finally show ?thesis
      using False by (simp add: kept_def [symmetric])
  qed
qed

lemma member_not_empty: "x \<in> A \<Longrightarrow> A \<noteq> {}"
  by auto

text \<open>
  C10: a dump file whose first row as read is not priced in Chaos Orb makes \<open>extract_df\<close>
  raise, whatever the later rows are: the anchor row is looked up by label 0 after the
  filter has removed it, which is a KeyError (a DateParseError comes first where a kept
  row has a date that does not parse).
\<close>

theorem extract_df_first_row_not_base:
  assumes "fs file_path = Some (r # rs)" and "Pay r \<noteq> ''Chaos Orb''"
  shows "extract_df td fs file_path =
    (if \<forall>x\<in>set rs. Pay x = ''Chaos Orb'' \<longrightarrow> td (csv_Date x) \<noteq> None
     then Inl KeyError else Inl DateParseError)"
proof -
  have "(\<exists>x\<in>set (r # rs). Pay x = ''Chaos Orb'' \<and> td (csv_Date x) = None) \<longleftrightarrow>
      (\<exists>x\<in>set rs. Pay x = ''Chaos Orb'' \<and> td (csv_Date x) = None)"
    using assms(2) by simp
  then show ?thesis
    using assms(2)
    unfolding extract_df_cases [of fs file_path "r # rs" td, OF assms(1)] Let_def
      kept_unparsed_iff
    by auto
qed

text \<open>
  The Harvest dump: its first row is priced in Exalted Orb, its two other rows in Chaos
  Orb with dates that parse; the extraction raises KeyError.
\<close>

theorem extract_df_first_row_not_base_witness:
  "example_fs ''poe/Harvest.2020-06-19.currency.csv'' = Some harvest_csv \<and>
   Pay (hd harvest_csv) \<noteq> ''Chaos Orb'' \<and>
   Pay (harvest_csv ! 1) = ''Chaos Orb'' \<and>
   extract_df example_td example_fs ''poe/Harvest.2020-06-19.currency.csv'' = Inl KeyError"
proof -
  let ?r = "\<lparr>csv_League = ''Harvest'', csv_Date = ''2020-06-19'', Get = ''Chaos Orb'',
       Pay = ''Exalted Orb'', csv_Value = 130\<rparr>"
  let ?rs = "[\<lparr>csv_League = ''Harvest'', csv_Date = ''2020-06-19'', Get = ''Exalted Orb'',
       Pay = ''Chaos Orb'', csv_Value = 131\<rparr>,
      \<lparr>csv_League = ''Harvest'', csv_Date = ''2020-06-20'', Get = ''Exalted Orb'',
       Pay = ''Chaos Orb'', csv_Value = 133\<rparr>]"
  have h1: "example_fs ''poe/Harvest.2020-06-19.currency.csv'' = Some (?r # ?rs)"
    by (simp add: example_fs_def harvest_csv_def)
  have h2: "Pay ?r \<noteq> ''Chaos Orb''"
    by simp
  from extract_df_first_row_not_base [of example_fs _ ?r ?rs example_td, OF h1 h2]
  have "extract_df example_td example_fs ''poe/Harvest.2020-06-19.currency.csv'' = Inl KeyError"
    by (simp add: example_td_def)
  with h1 show ?thesis
    by (simp add: harvest_csv_def)
qed

lemma league_table_extract_fail:
  "extract_df td fs p = Inl e \<Longrightarrow> league_table td fs gsum lc p = Inl e"
  by (simp add: league_table_def)

lemma join_loop_fail:
  "p \<in> set ps \<Longrightarrow> league_table td fs gsum lc p = Inl e \<Longrightarrow> \<exists>e'. join_loop td fs gsum lc ps t = Inl e'"
proof (induction ps arbitrary: t)
  case Nil
  then show ?case by simp
next
  case (Cons q ps)
  show ?case
  proof (cases "league_table td fs gsum lc q")
    case (Inl a)
    then show ?thesis by simp
  next
    case (Inr g)
    with Cons.prems have "p \<in> set ps" by auto
    then show ?thesis
      using Cons.IH Cons.prems(2) Inr by (cases "join t g") auto
  qed
qed

lemma get_data_joined_fail:
  assumes "r \<in> set files" and "league_table td fs gsum lc (File r) = Inl e"
  shows "\<exists>e'. get_data_joined td fs gsum files lc = Inl e'"
proof (cases files)
  case Nil
  with assms show ?thesis by simp
next
  case (Cons r0 rest)
  show ?thesis
  proof (cases "league_table td fs gsum lc (File r0)")
    case (Inl a)
    with Cons show ?thesis by (simp add: get_data_joined_def)
  next
    case (Inr t)
    with assms Cons have "File r \<in> set (map File rest)" by auto
    from join_loop_fail [OF this assms(2)] Inr Cons show ?thesis
      by (simp add: get_data_joined_def)
  qed
qed

lemma get_data_fail:
  assumes "r \<in> set files" and "league_table td fs gsum lc (File r) = Inl e"
  shows "\<exists>e'. get_data td fs gsum files lc = Inl e'"
  using get_data_joined_fail [OF assms] by (auto simp: get_data_def)

text \<open>
  C2, as the code has it: an extraction that returns has kept the first row of the file
  (label 0), and every row kept is dated from it: Date = date of the row minus date of
  the first row as read. So the first row returned has elapsed time zero, the minimum
  elapsed time is at most zero, and it is zero exactly when no row returned is dated
  before the first row of the file.
\<close>

theorem extract_df_elapsed:
  assumes "fs file_path = Some rs" and "extract_df td fs file_path = Inr fr"
  shows "\<exists>r0 rest. rs = r0 # rest \<and>
      fr = map (\<lambda>(i, r). (i, elapsed_row td r0 r))
               (filter (\<lambda>(i, r). Pay r = ''Chaos Orb'') (enumerate 0 rs)) \<and>
      hd fr = (0, elapsed_row td r0 r0) \<and>
      row_Date (snd (hd fr)) = 0 \<and>
      Min (set (map (\<lambda>(i, r). row_Date r) fr)) \<le> 0 \<and>
      (Min (set (map (\<lambda>(i, r). row_Date r) fr)) = 0 \<longleftrightarrow>
         (\<forall>(i, r)\<in>set fr. 0 \<le> row_Date r))"
proof -
  let ?kept = "filter (\<lambda>(i, r). Pay r = ''Chaos Orb'') (enumerate 0 rs)"
  from assms(2) obtain r0 rest where rs: "rs = r0 # rest" and base: "Pay r0 = ''Chaos Orb''"
    and fr: "fr = map (\<lambda>(i, r). (i, elapsed_row td r0 r)) ?kept"
    unfolding extract_df_cases [of fs file_path rs td, OF assms(1)] Let_def
    by (auto split: if_splits list.splits)
  have kept: "?kept = (0, r0) # filter (\<lambda>(i, r). Pay r = ''Chaos Orb'') (enumerate 1 rest)"
    using rs base by simp
  have hd: "hd fr = (0, elapsed_row td r0 r0)"
    unfolding fr kept by simp
  have zero: "row_Date (snd (hd fr)) = 0"
    unfolding hd by (simp add: elapsed_row_def)
  let ?E = "set (map (\<lambda>(i, r). row_Date r) fr)"
  have ne: "fr \<noteq> []" unfolding fr kept by simp
  have fin: "finite ?E" and mem: "0 \<in> ?E"
    using ne zero by (auto simp: image_iff case_prod_unfold intro!: bexI [of _ "hd fr"])
  have le: "Min ?E \<le> 0"
    using fin mem by (rule Min_le)
  have iff: "Min ?E = 0 \<longleftrightarrow> (\<forall>(i, r)\<in>set fr. 0 \<le> row_Date r)"
  proof
    assume "Min ?E = 0"
    then have "\<forall>d\<in>?E. 0 \<le> d" using fin by (metis Min_le)
    then show "\<forall>(i, r)\<in>set fr. 0 \<le> row_Date r" by force
  next
    assume "\<forall>(i, r)\<in>set fr. 0 \<le> row_Date r"
    then have "\<forall>d\<in>?E. 0 \<le> d" by force
    moreover have "Min ?E \<in> ?E"
      using mem by (intro Min_in [OF fin]) (rule member_not_empty, assumption)
    ultimately have "0 \<le> Min ?E" by blast
    with le show "Min ?E = 0" by simp
  qed
  show ?thesis
    using rs fr hd zero le iff by blast
qed

text \<open>The Metamorph dump, whose rows are in date order: the minimum is zero.\<close>

theorem extract_df_elapsed_witness:
  "example_fs ''poe/Metamorph.2019-12-13.currency.csv'' = Some metamorph_csv \<and>
   extract_df example_td example_fs ''poe/Metamorph.2019-12-13.currency.csv'' =
     Inr [(0, \<lparr>row_League = ''Metamorph'', row_Date = 0, Currency = ''Exalted Orb'', Value = 150\<rparr>),
          (2, \<lparr>row_League = ''Metamorph'', row_Date = 1, Currency = ''Exalted Orb'', Value = 155\<rparr>)] \<and>
   Min (set (map (\<lambda>(i, r). row_Date r)
     [(0::nat, \<lparr>row_League = ''Metamorph'', row_Date = 0, Currency = ''Exalted Orb'', Value = 150\<rparr>),
      (2, \<lparr>row_League = ''Metamorph'', row_Date = 1, Currency = ''Exalted Orb'', Value = 155\<rparr>)])) = 0"
proof -
  have h1: "example_fs ''poe/Metamorph.2019-12-13.currency.csv'' = Some metamorph_csv"
    by (simp add: example_fs_def)
  have h2: "extract_df example_td example_fs ''poe/Metamorph.2019-12-13.currency.csv'' =
     Inr [(0, \<lparr>row_League = ''Metamorph'', row_Date = 0, Currency = ''Exalted Orb'', Value = 150\<rparr>),
          (2, \<lparr>row_League = ''Metamorph'', row_Date = 1, Currency = ''Exalted Orb'', Value = 155\<rparr>)]"
    by (simp add: extract_df_def read_csv_def example_fs_def metamorph_csv_def example_td_def)
  from extract_df_elapsed [OF h1 h2] h1 h2 show ?thesis
    by simp
qed

text \<open>
  C2 as stated fails on the Blight dump, whose first row is the later snapshot: the
  other row gets the elapsed time -1, and the minimum is -1.
\<close>

theorem extract_df_min_elapsed_counterexample:
  "extract_df example_td example_fs ''poe/Blight.2019-09-06.currency.csv'' =
     Inr [(0, \<lparr>row_League = ''Blight'', row_Date = 0, Currency = ''Exalted Orb'', Value = 160\<rparr>),
          (1, \<lparr>row_League = ''Blight'', row_Date = - 1, Currency = ''Exalted Orb'', Value = 158\<rparr>)] \<and>
   map_sum id (\<lambda>fr. Min (set (map (\<lambda>(i, r). row_Date r) fr)))
     (extract_df example_td example_fs ''poe/Blight.2019-09-06.currency.csv'') = Inr (- 1)"
  by (simp add: extract_df_def read_csv_def example_fs_def blight_csv_def example_td_def)

text \<open>
  C4, as the code has it: on a dump file with no row priced in Chaos Orb the filter
  leaves no row, so the lookup of the row labelled 0 raises KeyError: \<open>extract_df\<close>
  returns no empty table, and \<open>get_data\<close> over a catalog with that file raises. The
  alignment would not take the table of an empty extraction either: on a table without
  columns and a non-empty currency list it raises IndexError.
\<close>

theorem extract_df_no_base_rows:
  assumes "r \<in> set files" and "fs (File r) = Some rs"
    and "\<forall>x\<in>set rs. Pay x \<noteq> ''Chaos Orb''"
  shows "extract_df td fs (File r) = Inl KeyError \<and>
    (\<exists>e. get_data td fs gsum files lc = Inl e) \<and>
    fill_league_currency (group_df gsum []) (c # cs) = Inl IndexError"
proof -
  have "\<not> (\<exists>x\<in>set rs. Pay x = ''Chaos Orb'' \<and> td (csv_Date x) = None)"
    using assms(3) by simp
  then have ex: "extract_df td fs (File r) = Inl KeyError"
    using assms(3)
    unfolding extract_df_cases [of fs "File r" rs td, OF assms(2)] Let_def
      kept_unparsed_iff
    by (simp split: list.splits)
  then have "league_table td fs gsum lc (File r) = Inl KeyError"
    by (rule league_table_extract_fail)
  with assms(1) have "\<exists>e. get_data td fs gsum files lc = Inl e"
    by (rule get_data_fail)
  moreover have "fill_league_currency (group_df gsum []) (c # cs) = Inl IndexError"
    by (simp add: fill_league_currency_def group_df_def)
  ultimately show ?thesis
    using ex by simp
qed

text \<open>The Heist dump, first in a catalog of two.\<close>

theorem extract_df_no_base_rows_witness:
  "example_fs ''poe/Heist.2020-09-18.currency.csv'' = Some heist_csv \<and>
   map Pay heist_csv = [''Exalted Orb'', ''Exalted Orb''] \<and>
   extract_df example_td example_fs ''poe/Heist.2020-09-18.currency.csv'' = Inl KeyError \<and>
   get_data example_td example_fs example_sum
     [\<lparr>League = ''poe/Heist'', Date = 18523, File = ''poe/Heist.2020-09-18.currency.csv''\<rparr>,
      \<lparr>League = ''poe/Delirium'', Date = 18334, File = ''poe/Delirium.2020-03-13.currency.csv''\<rparr>]
     [''Exalted Orb''] = Inl KeyError"
proof -
  let ?r = "\<lparr>League = ''poe/Heist'', Date = 18523, File = ''poe/Heist.2020-09-18.currency.csv''\<rparr>"
  let ?files = "[?r,
      \<lparr>League = ''poe/Delirium'', Date = 18334, File = ''poe/Delirium.2020-03-13.currency.csv''\<rparr>]"
  have h1: "?r \<in> set ?files" by simp
  have h2: "example_fs (File ?r) = Some heist_csv"
    by (simp add: example_fs_def)
  have h3: "\<forall>x\<in>set heist_csv. Pay x \<noteq> ''Chaos Orb''"
    by (simp add: heist_csv_def)
  from extract_df_no_base_rows [of ?r ?files example_fs heist_csv example_td, OF h1 h2 h3]
  have ex: "extract_df example_td example_fs ''poe/Heist.2020-09-18.currency.csv'' = Inl KeyError"
    by simp
  then have "get_data example_td example_fs example_sum ?files [''Exalted Orb''] = Inl KeyError"
    by (simp add: get_data_def get_data_joined_def league_table_def)
  with ex h2 show ?thesis
    by (simp add: heist_csv_def)
qed

text \<open>C4 as stated fails on the Heist dump: two rows, none priced in Chaos Orb, and KeyError.\<close>

theorem extract_df_empty_counterexample:
  "map Pay heist_csv = [''Exalted Orb'', ''Exalted Orb''] \<and>
   extract_df example_td example_fs ''poe/Heist.2020-09-18.currency.csv'' = Inl KeyError"
  by (simp add: extract_df_def read_csv_def example_fs_def heist_csv_def)

section \<open>Properties of get_file_df\<close>

lemma split_on_not_Nil: "split_on sep s \<noteq> []"
  by (induction s) (auto split: list.splits)

lemma length_split_on:
  "length (split_on sep s) = Suc (length (filter (\<lambda>c. c = sep) s))"
  by (induction s) (auto split: list.splits simp: split_on_not_Nil)

lemma file_entry_cases:
  "file_entry file =
     (if length (split_on CHR ''.'' file) < 2 then Inl IndexError
      else Inr (league_of file, date_of file, file))"
  by (auto simp: file_entry_def league_of_def date_of_def split: list.splits)

lemma file_dict_error: "file_dict d file_list = Inl e \<Longrightarrow> e = IndexError"
  by (induction file_list arbitrary: d)
     (auto simp: file_entry_cases split: if_splits)




lemma file_dict_keys:
  "file_dict d file_list = Inr d' \<Longrightarrow>
   fst ` set d' = fst ` set d \<union> league_of ` set file_list \<and>
   (distinct (map fst d) \<longrightarrow> distinct (map fst d'))"
proof (induction file_list arbitrary: d)
  case Nil
  then show ?case by simp
next
  case (Cons f file_list)
  from Cons.prems
  have rest: "file_dict (AList.update (league_of f) (date_of f, f) d) file_list = Inr d'"
    by (auto simp: file_entry_cases split: if_splits)
  from Cons.IH [OF rest] show ?case
    by (auto simp: dom_update distinct_update)
qed

text \<open>
  The entry of a league name in the dict: the date segment and the path of the last
  file listed with that league name.
\<close>

lemma file_dict_map_of:
  "file_dict d file_list = Inr d' \<Longrightarrow>
   map_of d' k =
     (case filter (\<lambda>f. league_of f = k) file_list of
        [] \<Rightarrow> map_of d k
      | fs \<Rightarrow> Some (date_of (last fs), last fs))"
proof (induction file_list arbitrary: d)
  case Nil
  then show ?case by simp
next
  case (Cons f file_list)
  from Cons.prems
  have rest: "file_dict (AList.update (league_of f) (date_of f, f) d) file_list = Inr d'"
    by (auto simp: file_entry_cases split: if_splits)
  from Cons.IH [OF rest] show ?case
    by (auto simp: update_conv' split: list.splits)
qed

lemma file_dict_entries:
  assumes "file_dict [] file_list = Inr d"
  shows "distinct (map fst d) \<and>
    set d = {(league_of file, date_of file, file) |file.
               file \<in> set file_list \<and>
               file = last (filter (\<lambda>f. league_of f = league_of file) file_list)}"
proof -
  from file_dict_keys [OF assms] have dist: "distinct (map fst d)"
    by simp
  have look: "map_of d k =
     (case filter (\<lambda>f. league_of f = k) file_list of
        [] \<Rightarrow> None
      | fs \<Rightarrow> Some (date_of (last fs), last fs))" for k
    using file_dict_map_of [OF assms, of k] by (simp split: list.splits)
  have "(k, dt, nm) \<in> set d \<longleftrightarrow>
      nm \<in> set file_list \<and> k = league_of nm \<and> dt = date_of nm \<and>
      nm = last (filter (\<lambda>f. league_of f = league_of nm) file_list)" for k dt nm
  proof -
    have "(k, dt, nm) \<in> set d \<longleftrightarrow> map_of d k = Some (dt, nm)"
      using dist by simp
    also have "\<dots> \<longleftrightarrow> filter (\<lambda>f. league_of f = k) file_list \<noteq> [] \<and>
        dt = date_of (last (filter (\<lambda>f. league_of f = k) file_list)) \<and>
        nm = last (filter (\<lambda>f. league_of f = k) file_list)"
      unfolding look by (auto split: list.splits)
    also have "\<dots> \<longleftrightarrow> nm \<in> set file_list \<and> k = league_of nm \<and> dt = date_of nm \<and>
        nm = last (filter (\<lambda>f. league_of f = league_of nm) file_list)"
    proof
      assume a: "filter (\<lambda>f. league_of f = k) file_list \<noteq> [] \<and>
        dt = date_of (last (filter (\<lambda>f. league_of f = k) file_list)) \<and>
        nm = last (filter (\<lambda>f. league_of f = k) file_list)"
      then have "nm \<in> set (filter (\<lambda>f. league_of f = k) file_list)"
        by (metis last_in_set)
      then have "nm \<in> set file_list" and "league_of nm = k"
        by simp_all
      with a show "nm \<in> set file_list \<and> k = league_of nm \<and> dt = date_of nm \<and>
        nm = last (filter (\<lambda>f. league_of f = league_of nm) file_list)"
        by simp
    next
      assume b: "nm \<in> set file_list \<and> k = league_of nm \<and> dt = date_of nm \<and>
        nm = last (filter (\<lambda>f. league_of f = league_of nm) file_list)"
      then have "nm \<in> set (filter (\<lambda>f. league_of f = k) file_list)"
        by simp
      then have "filter (\<lambda>f. league_of f = k) file_list \<noteq> []"
        by (metis empty_iff empty_set)
      with b show "filter (\<lambda>f. league_of f = k) file_list \<noteq> [] \<and>
        dt = date_of (last (filter (\<lambda>f. league_of f = k) file_list)) \<and>
        nm = last (filter (\<lambda>f. league_of f = k) file_list)"
        by simp
    qed
    finally show ?thesis .
  qed
  then have "set d = {(league_of file, date_of file, file) |file.
               file \<in> set file_list \<and>
               file = last (filter (\<lambda>f. league_of f = league_of file) file_list)}"
    by (auto simp: set_eq_iff)
  with dist show ?thesis by simp
qed

lemma to_datetime_Inr:
  assumes "to_datetime td ss = Inr ds"
  shows "(\<forall>s\<in>set ss. td s \<noteq> None) \<and> ds = map (\<lambda>s. the (td s)) ss"
proof -
  have all: "\<forall>s\<in>set ss. td s \<noteq> None"
  proof (rule ccontr)
    assume "\<not> (\<forall>s\<in>set ss. td s \<noteq> None)"
    then have "\<exists>s\<in>set ss. td s = None" by simp
    then have "to_datetime td ss = Inl DateParseError" by (rule to_datetime_fail)
    with assms show False by simp
  qed
  with to_datetime_total [of ss td] assms show ?thesis by simp
qed

text \<open>
  What \<open>get_file_df\<close> returns, by cases on the dict \<open>d\<close> of the comprehension: KeyError
  for the empty dict, DateParseError where the date of an entry does not parse, else
  the entries with their dates parsed, sorted.
\<close>

lemma get_file_df_of_dict:
  assumes "file_dict [] file_list = Inr d"
  shows "get_file_df td file_list =
    (if d = [] then Inl KeyError
     else if \<exists>(league, date, file)\<in>set d. td date = None then Inl DateParseError
     else Inr (sort_key (\<lambda>r. - Date r)
            (map (\<lambda>(league, date, file).
                    \<lparr>League = league, Date = the (td date), File = file\<rparr>) d)))"
proof (cases "\<exists>(league, date, file)\<in>set d. td date = None")
  case True
  then have "\<exists>s\<in>set (map (\<lambda>(league, date, file). date) d). td s = None"
    by force
  then have "to_datetime td (map (\<lambda>(league, date, file). date) d) = Inl DateParseError"
    by (rule to_datetime_fail)
  with True assms show ?thesis
    by (simp add: get_file_df_def)
next
  case False
  define dates where "dates = map (\<lambda>s. the (td s)) (map (\<lambda>(league, date, file). date) d)"
  from False have "\<forall>s\<in>set (map (\<lambda>(league, date, file). date) d). td s \<noteq> None"
    by force
  then have parsed: "to_datetime td (map (\<lambda>(league, date, file). date) d) = Inr dates"
    unfolding dates_def by (rule to_datetime_total)
  have "map (\<lambda>((league, date, file), dt).
                  \<lparr>League = league, Date = dt, File = file\<rparr>) (zip d dates) =
      map (\<lambda>(league, date, file). \<lparr>League = league, Date = the (td date), File = file\<rparr>) d"
    unfolding dates_def by (simp add: zip_map2 zip_same_conv_map case_prod_unfold)
  with False assms parsed show ?thesis
    by (simp add: get_file_df_def)
qed

lemma get_file_df_cases:
  assumes "get_file_df td file_list = Inr cat"
  shows "\<exists>d. file_dict [] file_list = Inr d \<and> d \<noteq> [] \<and>
    (\<forall>(league, date, file)\<in>set d. td date \<noteq> None) \<and>
    cat = sort_key (\<lambda>r. - Date r)
            (map (\<lambda>(league, date, file).
                    \<lparr>League = league, Date = the (td date), File = file\<rparr>) d)"
proof -
  from assms obtain d where d: "file_dict [] file_list = Inr d"
    by (auto simp: get_file_df_def split: sum.splits)
  from assms show ?thesis
    unfolding get_file_df_of_dict [OF d] using d
    by (auto split: if_splits)
qed

text \<open>
  A record of the catalog: its File is a file of the list, the last one listed with its
  league name; its League and its Date are the first segment of the name of that file
  and the parsed second segment.
\<close>

lemma get_file_df_records:
  assumes "get_file_df td file_list = Inr cat" and "r \<in> set cat"
  shows "File r \<in> set file_list \<and>
    File r = last (filter (\<lambda>f. league_of f = League r) file_list) \<and>
    League r = league_of (File r) \<and>
    td (date_of (File r)) = Some (Date r)"
proof -
  from get_file_df_cases [OF assms(1)] obtain d where d: "file_dict [] file_list = Inr d"
    and ok: "\<forall>(league, date, file)\<in>set d. td date \<noteq> None"
    and cat: "cat = sort_key (\<lambda>r. - Date r)
            (map (\<lambda>(league, date, file).
                    \<lparr>League = league, Date = the (td date), File = file\<rparr>) d)"
    by blast
  from assms(2) obtain dt where mem: "(League r, dt, File r) \<in> set d"
    and date: "Date r = the (td dt)"
    unfolding cat by auto
  from mem file_dict_entries [OF d]
  have "File r \<in> set file_list" and "League r = league_of (File r)" and "dt = date_of (File r)"
    and "File r = last (filter (\<lambda>f. league_of f = league_of (File r)) file_list)"
    by auto
  moreover from ok mem have "td dt \<noteq> None"
    by auto
  ultimately show ?thesis
    using date by auto
qed




text \<open>
  C3, as the code has it: the catalog is built from a dict keyed by league name, so it
  has one record per distinct league name (first segment) of the file list, and the
  record of a league carries the path of the last file listed with that name, and the
  date parsed from the second segment of that path. Files of one league name share one
  record.
\<close>

theorem get_file_df_one_record_per_league:
  assumes "get_file_df td file_list = Inr cat"
  shows "distinct (map League cat) \<and>
    set (map League cat) = league_of ` set file_list \<and>
    length cat = card (league_of ` set file_list) \<and>
    (\<forall>r\<in>set cat.
       File r \<in> set file_list \<and>
       File r = last (filter (\<lambda>f. league_of f = League r) file_list) \<and>
       League r = league_of (File r) \<and>
       td (date_of (File r)) = Some (Date r))"
proof -
  from get_file_df_cases [OF assms] obtain d where d: "file_dict [] file_list = Inr d"
    and cat: "cat = sort_key (\<lambda>r. - Date r)
            (map (\<lambda>(league, date, file).
                    \<lparr>League = league, Date = the (td date), File = file\<rparr>) d)"
    by blast
  let ?mk = "\<lambda>(league, date, file). \<lparr>League = league, Date = the (td date), File = file\<rparr>"
  have fst_d: "map League (map ?mk d) = map fst d"
    by (simp add: case_prod_unfold)
  from file_dict_keys [OF d] have keys: "fst ` set d = league_of ` set file_list"
    and dist: "distinct (map fst d)"
    by simp_all
  from dist have "distinct (map League (map ?mk d))"
    by (simp only: fst_d)
  then have "distinct (map ?mk d) \<and> inj_on League (set (map ?mk d))"
    by (simp only: distinct_map)
  then have "distinct cat \<and> inj_on League (set cat)"
    unfolding cat by (simp only: distinct_sort set_sort)
  then have 1: "distinct (map League cat)"
    by (simp only: distinct_map)
  have "set (map League cat) = set (map League (map ?mk d))"
    unfolding cat by (simp only: set_map set_sort)
  also have "\<dots> = fst ` set d"
    by (simp only: fst_d set_map)
  finally have 2: "set (map League cat) = league_of ` set file_list"
    using keys by simp
  from 1 2 have 3: "length cat = card (league_of ` set file_list)"
    by (metis distinct_card length_map)
  have 4: "\<forall>r\<in>set cat.
       File r \<in> set file_list \<and>
       File r = last (filter (\<lambda>f. league_of f = League r) file_list) \<and>
       League r = league_of (File r) \<and>
       td (date_of (File r)) = Some (Date r)"
    using get_file_df_records [OF assms] by blast
  from 1 2 3 4 show ?thesis by blast
qed

text \<open>
  Two snapshots of Blight and one of Delirium: two records, and the record of Blight has
  the path and the date of the snapshot listed last.
\<close>

theorem get_file_df_one_record_per_league_witness:
  "get_file_df example_td
     [''poe/Blight.2019-09-06.currency.csv'', ''poe/Delirium.2020-03-13.currency.csv'',
      ''poe/Blight.2019-09-07.currency.csv''] =
     Inr [\<lparr>League = ''poe/Delirium'', Date = 18334,
           File = ''poe/Delirium.2020-03-13.currency.csv''\<rparr>,
          \<lparr>League = ''poe/Blight'', Date = 18146,
           File = ''poe/Blight.2019-09-07.currency.csv''\<rparr>] \<and>
   card (league_of ` set
     [''poe/Blight.2019-09-06.currency.csv'', ''poe/Delirium.2020-03-13.currency.csv'',
      ''poe/Blight.2019-09-07.currency.csv'']) = 2 \<and>
   example_td (date_of ''poe/Blight.2019-09-07.currency.csv'') = Some 18146"
proof -
  let ?fl = "[''poe/Blight.2019-09-06.currency.csv'', ''poe/Delirium.2020-03-13.currency.csv'',
      ''poe/Blight.2019-09-07.currency.csv'']"
  let ?b = "\<lparr>League = ''poe/Blight'', Date = 18146,
           File = ''poe/Blight.2019-09-07.currency.csv''\<rparr>"
  let ?cat = "[\<lparr>League = ''poe/Delirium'', Date = 18334,
           File = ''poe/Delirium.2020-03-13.currency.csv''\<rparr>, ?b]"
  have h: "get_file_df example_td ?fl = Inr ?cat"
    by code_simp
  from get_file_df_one_record_per_league [OF h]
  have "example_td (date_of (File ?b)) = Some (Date ?b)"
    by simp
  moreover from get_file_df_one_record_per_league [OF h]
  have "card (league_of ` set ?fl) = length ?cat"
    by simp
  ultimately show ?thesis
    using h by simp
qed

text \<open>
  C3 as stated fails on two snapshots of one league: the catalog has one record, that of
  the file listed last.
\<close>

theorem get_file_df_same_league_counterexample:
  "get_file_df example_td
     [''poe/Blight.2019-09-06.currency.csv'', ''poe/Blight.2019-09-07.currency.csv''] =
     Inr [\<lparr>League = ''poe/Blight'', Date = 18146,
           File = ''poe/Blight.2019-09-07.currency.csv''\<rparr>]"
  by code_simp

section \<open>Properties of __init__ and get_latest_league_data\<close>

text \<open>
  C8, as the code has it: \<open>league_names\<close> is the League column of \<open>df_files\<close> as
  \<open>get_file_df\<close> returns it, after the sort: the leagues by snapshot date, latest first.
\<close>

theorem init_league_names_date_order:
  assumes "init td fs gsum found = Inr imp"
  shows "get_file_df td (get_currency_file_paths found) = Inr (df_files imp) \<and>
    league_names imp = map League (df_files imp) \<and>
    sorted_wrt (\<lambda>a b. Date b \<le> Date a) (df_files imp)"
proof -
  from assms have cat: "get_file_df td (get_currency_file_paths found) = Inr (df_files imp)"
    and names: "league_names imp = map League (df_files imp)"
    by (auto simp: init_def Let_def split: sum.splits)
  from get_file_df_cases [OF cat] obtain ys where
    "df_files imp = sort_key (\<lambda>r. - Date r) ys"
    by blast
  then have "sorted (map (\<lambda>r. - Date r) (df_files imp))"
    by (simp only: sorted_sort_key)
  then have "sorted_wrt (\<lambda>a b. Date b \<le> Date a) (df_files imp)"
    by (simp add: sorted_map)
  with cat names show ?thesis by simp
qed

text \<open>The example: Metamorph is found first, Delirium is dated later.\<close>

theorem init_league_names_date_order_witness:
  "init example_td example_fs example_sum example_found =
     Inr \<lparr>currency_file_path_list =
            [''poe/Metamorph.2019-12-13.currency.csv'',
             ''poe/Delirium.2020-03-13.currency.csv''],
          df_files =
            [\<lparr>League = ''poe/Delirium'', Date = 18334,
              File = ''poe/Delirium.2020-03-13.currency.csv''\<rparr>,
             \<lparr>League = ''poe/Metamorph'', Date = 18243,
              File = ''poe/Metamorph.2019-12-13.currency.csv''\<rparr>],
          latest_currency = [''Awakener Orb'', ''Exalted Orb''],
          league_names = [''poe/Delirium'', ''poe/Metamorph''],
          df = \<lparr>columns =
                   [(''Awakener Orb'', ''Delirium''), (''Exalted Orb'', ''Delirium''),
                    (''Awakener Orb'', ''Metamorph''), (''Exalted Orb'', ''Metamorph'')],
                 rows = [(0, [Some 300, Some 120, None, Some 150])]\<rparr>\<rparr> \<and>
   sorted_wrt (\<lambda>a b. Date b \<le> Date a)
     [\<lparr>League = ''poe/Delirium'', Date = 18334,
       File = ''poe/Delirium.2020-03-13.currency.csv''\<rparr>,
      \<lparr>League = ''poe/Metamorph'', Date = 18243,
       File = ''poe/Metamorph.2019-12-13.currency.csv''\<rparr>]"
proof -
  have h: "init example_td example_fs example_sum example_found =
     Inr \<lparr>currency_file_path_list =
            [''poe/Metamorph.2019-12-13.currency.csv'',
             ''poe/Delirium.2020-03-13.currency.csv''],
          df_files =
            [\<lparr>League = ''poe/Delirium'', Date = 18334,
              File = ''poe/Delirium.2020-03-13.currency.csv''\<rparr>,
             \<lparr>League = ''poe/Metamorph'', Date = 18243,
              File = ''poe/Metamorph.2019-12-13.currency.csv''\<rparr>],
          latest_currency = [''Awakener Orb'', ''Exalted Orb''],
          league_names = [''poe/Delirium'', ''poe/Metamorph''],
          df = \<lparr>columns =
                   [(''Awakener Orb'', ''Delirium''), (''Exalted Orb'', ''Delirium''),
                    (''Awakener Orb'', ''Metamorph''), (''Exalted Orb'', ''Metamorph'')],
                 rows = [(0, [Some 300, Some 120, None, Some 150])]\<rparr>\<rparr>"
    by code_simp
  from init_league_names_date_order [OF h] h show ?thesis
    by simp
qed

text \<open>
  C8 as stated fails on the example: the files are found in the order Metamorph,
  Delirium; the league names are handed on in the order Delirium, Metamorph.
\<close>

theorem init_league_names_counterexample:
  "map league_of (get_currency_file_paths example_found) =
     [''poe/Metamorph'', ''poe/Delirium''] \<and>
   map_sum id league_names (init example_td example_fs example_sum example_found) =
     Inr [''poe/Delirium'', ''poe/Metamorph'']"
  by code_simp

text \<open>
  C5: with \<open>m\<close> the latest Date of the catalog, \<open>get_latest_league_data\<close> raises
  ValueError (the unpacking into one name) when more than one record has the Date \<open>m\<close>,
  and when exactly one record has it the result is what \<open>extract_df\<close> gives on the File
  of that record.
\<close>

theorem get_latest_league_data_unique_latest:
  assumes "m \<in> Date ` set files" and "\<forall>r\<in>set files. Date r \<le> m"
  shows "(1 < length (filter (\<lambda>r. Date r = m) files) \<longrightarrow>
            get_latest_league_data td fs files = Inl ValueError) \<and>
         (\<forall>r. filter (\<lambda>r. Date r = m) files = [r] \<longrightarrow>
            get_latest_league_data td fs files = extract_df td fs (File r))"
proof -
  from assms(1) have ne: "files \<noteq> []" by auto
  have "Max (set (map Date files)) = m"
    using assms by (intro Max_eqI) auto
  with ne have "get_latest_league_data td fs files =
      (case map File (filter (\<lambda>r. Date r = m) files) of
         [p] \<Rightarrow> extract_df td fs p
       | _ \<Rightarrow> Inl ValueError)"
    by (simp add: get_latest_league_data_def)
  then show ?thesis
    by (auto split: list.splits)
qed

text \<open>Two records of the latest date; and the example catalog, where Delirium alone is latest.\<close>

theorem get_latest_league_data_unique_latest_witness:
  "get_latest_league_data example_td example_fs
     [\<lparr>League = ''poe/Delirium'', Date = 18334,
       File = ''poe/Delirium.2020-03-13.currency.csv''\<rparr>,
      \<lparr>League = ''poe/Delirium_HC'', Date = 18334,
       File = ''poe/Delirium_HC.2020-03-13.currency.csv''\<rparr>,
      \<lparr>League = ''poe/Metamorph'', Date = 18243,
       File = ''poe/Metamorph.2019-12-13.currency.csv''\<rparr>] = Inl ValueError \<and>
   get_latest_league_data example_td example_fs
     [\<lparr>League = ''poe/Delirium'', Date = 18334,
       File = ''poe/Delirium.2020-03-13.currency.csv''\<rparr>,
      \<lparr>League = ''poe/Metamorph'', Date = 18243,
       File = ''poe/Metamorph.2019-12-13.currency.csv''\<rparr>] =
     extract_df example_td example_fs ''poe/Delirium.2020-03-13.currency.csv'' \<and>
   extract_df example_td example_fs ''poe/Delirium.2020-03-13.currency.csv'' =
     Inr [(0, \<lparr>row_League = ''Delirium'', row_Date = 0, Currency = ''Exalted Orb'',
               Value = 120\<rparr>),
          (1, \<lparr>row_League = ''Delirium'', row_Date = 0, Currency = ''Awakener Orb'',
               Value = 300\<rparr>)]"
proof -
  let ?d = "\<lparr>League = ''poe/Delirium'', Date = 18334,
       File = ''poe/Delirium.2020-03-13.currency.csv''\<rparr>"
  let ?h = "\<lparr>League = ''poe/Delirium_HC'', Date = 18334,
       File = ''poe/Delirium_HC.2020-03-13.currency.csv''\<rparr>"
  let ?m = "\<lparr>League = ''poe/Metamorph'', Date = 18243,
       File = ''poe/Metamorph.2019-12-13.currency.csv''\<rparr>"
  have a1: "18334 \<in> Date ` set [?d, ?h, ?m]" by simp
  have a2: "\<forall>r\<in>set [?d, ?h, ?m]. Date r \<le> 18334" by simp
  have b1: "18334 \<in> Date ` set [?d, ?m]" by simp
  have b2: "\<forall>r\<in>set [?d, ?m]. Date r \<le> 18334" by simp
  from get_latest_league_data_unique_latest [OF a1 a2, of example_td example_fs]
  have 1: "get_latest_league_data example_td example_fs [?d, ?h, ?m] = Inl ValueError"
    by simp
  from get_latest_league_data_unique_latest [OF b1 b2, of example_td example_fs]
  have 2: "get_latest_league_data example_td example_fs [?d, ?m] =
      extract_df example_td example_fs ''poe/Delirium.2020-03-13.currency.csv''"
    by simp
  have 3: "extract_df example_td example_fs ''poe/Delirium.2020-03-13.currency.csv'' =
     Inr [(0, \<lparr>row_League = ''Delirium'', row_Date = 0, Currency = ''Exalted Orb'',
               Value = 120\<rparr>),
          (1, \<lparr>row_League = ''Delirium'', row_Date = 0, Currency = ''Awakener Orb'',
               Value = 300\<rparr>)]"
    by (simp add: extract_df_def read_csv_def example_fs_def delirium_csv_def example_td_def)
  from 1 2 3 show ?thesis by simp
qed

section \<open>Properties of group_df\<close>

lemma map_of_graph:
  "map_of (map (\<lambda>x. (x, f x)) xs) x = (if x \<in> set xs then Some (f x) else None)"
  by (induction xs) auto

lemma group_df_cell:
  assumes "r \<in> set (map snd fr)"
  shows "cell (group_df gsum fr) (row_Date r) (Currency r, row_League r) =
    Some (group_cell gsum (map snd fr) (row_Date r) (Currency r, row_League r))"
proof -
  let ?rs = "map snd fr"
  let ?cols = "sort (remdups (map (\<lambda>r. (Currency r, row_League r)) ?rs))"
  have d: "row_Date r \<in> set (sort (remdups (map row_Date ?rs)))"
    using assms by (simp del: map_map) 
  have c: "(Currency r, row_League r) \<in> set ?cols"
    using assms by (auto simp del: map_map)
  have "map_of (rows (group_df gsum fr)) (row_Date r) =
      Some (map (group_cell gsum ?rs (row_Date r)) ?cols)"
    using d by (simp add: group_df_def Let_def map_of_graph del: map_map set_map)
  moreover have "map_of (zip ?cols (map (group_cell gsum ?rs (row_Date r)) ?cols))
      (Currency r, row_League r) = Some (group_cell gsum ?rs (row_Date r) (Currency r, row_League r))"
    using c by (simp only: map_of_zip_map if_True)
  moreover have "columns (group_df gsum fr) = ?cols"
    by (simp add: group_df_def Let_def)
  ultimately show ?thesis
    by (simp only: cell_def option.case)
qed

text \<open>
  Both kernels on a group of one value and of two: the value, and the sum of the two in
  the addition of the dtype, for values that zero leaves alone (\<open>0 + v = v\<close>,
  \<open>v - 0 = v\<close>) and that cancel (\<open>v - v = 0\<close>). The finite numbers of float64 other than
  -0.0 are such values, and so are all numbers of int64.
\<close>

lemma running_sum_one_two:
  assumes "add zero v1 = v1"
  shows "running_sum add zero [v1] = v1 \<and> running_sum add zero [v1, v2] = add v1 v2"
  using assms by (simp add: running_sum_def)

lemma kahan_sum_one_two:
  assumes "add zero v1 = v1" and "sub v1 zero = v1" and "sub v1 v1 = zero"
    and "sub v2 zero = v2"
  shows "kahan_sum add sub zero [v1] = v1 \<and> kahan_sum add sub zero [v1, v2] = add v1 v2"
  using assms by (simp add: kahan_sum_def Let_def)

text \<open>
  C6: the cell of the grouped table at a key (elapsed time, currency, league) that some
  row has is what pandas' sum kernel makes of the Values of all rows with that key, in
  row order. With either kernel of pandas that is \<open>v1 + v2\<close>, in the addition of the
  dtype of the Value column, when two rows have the key (the Values are added, none
  overwrites the other), and the Value itself when a single row has it.
\<close>

theorem group_df_sums_duplicates:
  assumes "g = filter (\<lambda>r. row_Date r = d \<and> Currency r = c \<and> row_League r = l) (map snd fr)"
    and "gsum = running_sum add zero \<or> gsum = kahan_sum add sub zero"
    and "\<forall>r\<in>set g. add zero (Value r) = Value r \<and> sub (Value r) zero = Value r \<and>
           sub (Value r) (Value r) = zero"
  shows "(g \<noteq> [] \<longrightarrow> cell (group_df gsum fr) d (c, l) = Some (Some (gsum (map Value g)))) \<and>
    (\<forall>r1 r2. g = [r1, r2] \<longrightarrow>
       cell (group_df gsum fr) d (c, l) = Some (Some (add (Value r1) (Value r2)))) \<and>
    (\<forall>r. g = [r] \<longrightarrow> cell (group_df gsum fr) d (c, l) = Some (Some (Value r)))"
proof -
  have gen: "cell (group_df gsum fr) d (c, l) = Some (Some (gsum (map Value g)))" if "g \<noteq> []"
  proof -
    from that obtain r where "r \<in> set g" by (cases g) auto
    with assms(1) have r: "r \<in> set (map snd fr)"
      and k: "row_Date r = d" "Currency r = c" "row_League r = l"
      by auto
    have "group_cell gsum (map snd fr) d (c, l) = Some (gsum (map Value g))"
      using that assms(1) by (simp add: group_cell_def Let_def del: map_map)
    with group_df_cell [OF r] k show ?thesis by simp
  qed
  have two: "gsum [Value r1, Value r2] = add (Value r1) (Value r2)" if "g = [r1, r2]" for r1 r2
  proof -
    from that assms(3) have id: "add zero (Value r1) = Value r1" "sub (Value r1) zero = Value r1"
      "sub (Value r1) (Value r1) = zero" "sub (Value r2) zero = Value r2"
      by simp_all
    from assms(2) show ?thesis
      using running_sum_one_two [of add zero "Value r1" "Value r2", OF id(1)]
        kahan_sum_one_two [of add zero "Value r1" sub "Value r2", OF id]
      by auto
  qed
  have one: "gsum [Value r] = Value r" if "g = [r]" for r
  proof -
    from that assms(3) have id: "add zero (Value r) = Value r" "sub (Value r) zero = Value r"
      "sub (Value r) (Value r) = zero"
      by simp_all
    from assms(2) show ?thesis
      using running_sum_one_two [of add zero "Value r" "Value r", OF id(1)]
        kahan_sum_one_two [of add zero "Value r" sub "Value r", OF id id(2)]
      by auto
  qed
  show ?thesis
    using gen two one by auto
qed

text \<open>
  Two rows of one key, 120 and 3/2, and a key with a single row, in a float64 column
  under each kernel (the sum 243/2 is exact in float64); and two rows of one key in an
  int64 column, whose sum wraps around: 9223372036854775807 + 1 is -9223372036854775808.
\<close>

theorem group_df_sums_duplicates_witness:
  "cell (group_df (running_sum (+) 0)
     [(0, \<lparr>row_League = ''Delirium'', row_Date = 0, Currency = ''Exalted Orb'',
           Value = (120::real)\<rparr>),
      (1, \<lparr>row_League = ''Delirium'', row_Date = 0, Currency = ''Awakener Orb'', Value = 300\<rparr>),
      (2, \<lparr>row_League = ''Delirium'', row_Date = 0, Currency = ''Exalted Orb'', Value = 3 / 2\<rparr>)])
     0 (''Exalted Orb'', ''Delirium'') = Some (Some (243 / 2)) \<and>
   cell (group_df (kahan_sum (+) (-) 0)
     [(0, \<lparr>row_League = ''Delirium'', row_Date = 0, Currency = ''Exalted Orb'',
           Value = (120::real)\<rparr>),
      (1, \<lparr>row_League = ''Delirium'', row_Date = 0, Currency = ''Awakener Orb'', Value = 300\<rparr>),
      (2, \<lparr>row_League = ''Delirium'', row_Date = 0, Currency = ''Exalted Orb'', Value = 3 / 2\<rparr>)])
     0 (''Awakener Orb'', ''Delirium'') = Some (Some 300) \<and>
   cell (group_df (kahan_sum (+) (-) 0)
     [(0, \<lparr>row_League = ''Delirium'', row_Date = 0, Currency = ''Exalted Orb'',
           Value = (9223372036854775807::64 word)\<rparr>),
      (1, \<lparr>row_League = ''Delirium'', row_Date = 0, Currency = ''Exalted Orb'', Value = 1\<rparr>)])
     0 (''Exalted Orb'', ''Delirium'') = Some (Some (9223372036854775808::64 word)) \<and>
   sint (9223372036854775808::64 word) = - 9223372036854775808"
proof -
  let ?a = "\<lparr>row_League = ''Delirium'', row_Date = 0, Currency = ''Exalted Orb'',
             Value = (120::real)\<rparr>"
  let ?b = "\<lparr>row_League = ''Delirium'', row_Date = 0, Currency = ''Awakener Orb'',
             Value = (300::real)\<rparr>"
  let ?c = "\<lparr>row_League = ''Delirium'', row_Date = 0, Currency = ''Exalted Orb'',
             Value = (3 / 2::real)\<rparr>"
  let ?fr = "[(0::nat, ?a), (1, ?b), (2, ?c)]"
  let ?m = "\<lparr>row_League = ''Delirium'', row_Date = 0, Currency = ''Exalted Orb'',
             Value = (9223372036854775807::64 word)\<rparr>"
  let ?n = "\<lparr>row_League = ''Delirium'', row_Date = 0, Currency = ''Exalted Orb'',
             Value = (1::64 word)\<rparr>"
  let ?fw = "[(0::nat, ?m), (1, ?n)]"
  have g1: "[?a, ?c] = filter (\<lambda>r. row_Date r = 0 \<and> Currency r = ''Exalted Orb'' \<and>
      row_League r = ''Delirium'') (map snd ?fr)"
    by simp
  have g2: "[?b] = filter (\<lambda>r. row_Date r = 0 \<and> Currency r = ''Awakener Orb'' \<and>
      row_League r = ''Delirium'') (map snd ?fr)"
    by simp
  have g3: "[?m, ?n] = filter (\<lambda>r. row_Date r = 0 \<and> Currency r = ''Exalted Orb'' \<and>
      row_League r = ''Delirium'') (map snd ?fw)"
    by simp
  have k1: "running_sum (+) (0::real) = running_sum (+) 0 \<or>
      running_sum (+) (0::real) = kahan_sum (+) (-) 0"
    by simp
  have k2: "kahan_sum (+) (-) (0::real) = running_sum (+) 0 \<or>
      kahan_sum (+) (-) (0::real) = kahan_sum (+) (-) 0"
    by simp
  have k3: "kahan_sum (+) (-) (0::64 word) = running_sum (+) 0 \<or>
      kahan_sum (+) (-) (0::64 word) = kahan_sum (+) (-) 0"
    by simp
  have i1: "\<forall>r\<in>set [?a, ?c]. 0 + Value r = Value r \<and> Value r - 0 = Value r \<and>
      Value r - Value r = 0"
    by simp
  have i2: "\<forall>r\<in>set [?b]. 0 + Value r = Value r \<and> Value r - 0 = Value r \<and>
      Value r - Value r = 0"
    by simp
  have i3: "\<forall>r\<in>set [?m, ?n]. 0 + Value r = Value r \<and> Value r - 0 = Value r \<and>
      Value r - Value r = 0"
    by simp
  from group_df_sums_duplicates [OF g1 k1 i1]
  have 1: "cell (group_df (running_sum (+) 0) ?fr) 0 (''Exalted Orb'', ''Delirium'') =
      Some (Some (Value ?a + Value ?c))"
    by blast
  from group_df_sums_duplicates [OF g2 k2 i2]
  have 2: "cell (group_df (kahan_sum (+) (-) 0) ?fr) 0 (''Awakener Orb'', ''Delirium'') =
      Some (Some (Value ?b))"
    by blast
  from group_df_sums_duplicates [OF g3 k3 i3]
  have 3: "cell (group_df (kahan_sum (+) (-) 0) ?fw) 0 (''Exalted Orb'', ''Delirium'') =
      Some (Some (Value ?m + Value ?n))"
    by blast
  have 4: "sint (9223372036854775808::64 word) = - 9223372036854775808"
    by simp
  from 1 2 3 4 show ?thesis by simp
qed

section \<open>Properties of fill_league_currency\<close>

lemma well_formedD:
  "well_formed t \<Longrightarrow> (k, xs) \<in> set (rows t) \<Longrightarrow> length xs = length (columns t)"
  by (auto simp: well_formed_def list_all_iff)

lemma map_of_rows_map:
  "map_of (map (\<lambda>(k, xs). (k, f xs)) rs) k = map_option f (map_of rs k)"
  by (induction rs) auto

lemma map_of_zip_append_new:
  "length cs = length xs \<Longrightarrow> key \<notin> set cs \<Longrightarrow>
   map_of (zip (cs @ [key]) (xs @ [v])) col =
     (if col = key then Some v else map_of (zip cs xs) col)"
  by (induction cs xs rule: list_induct2) auto

lemma map_of_zip_overwrite:
  "length cs = length xs \<Longrightarrow>
   map_of (zip cs (map (\<lambda>(c, x). if c = key then v else x) (zip cs xs))) col =
     (if col = key \<and> key \<in> set cs then Some v else map_of (zip cs xs) col)"
  by (induction cs xs rule: list_induct2) auto

lemma cell_set_column:
  assumes "well_formed t"
  shows "cell (set_column t key v) k col =
    (if col = key then (if k \<in> fst ` set (rows t) then Some v else None) else cell t k col)"
proof (cases "map_of (rows t) k")
  case None
  then have "k \<notin> fst ` set (rows t)"
    by (simp add: map_of_eq_None_iff)
  with None show ?thesis
    by (simp add: cell_def set_column_def map_of_rows_map)
next
  case (Some xs)
  then have mem: "(k, xs) \<in> set (rows t)" by (rule map_of_SomeD)
  then have len: "length xs = length (columns t)"
    using assms by (rule well_formedD [rotated])
  from mem have k: "k \<in> fst ` set (rows t)" by force
  show ?thesis
  proof (cases "key \<in> set (columns t)")
    case True
    with Some k len [symmetric] show ?thesis
      by (simp add: cell_def set_column_def map_of_rows_map map_of_zip_overwrite)
  next
    case False
    with Some k map_of_zip_append_new [OF len [symmetric] False, of v col] show ?thesis
      by (simp add: cell_def set_column_def map_of_rows_map del: zip_append map_of_append)
  qed
qed

lemma well_formed_set_column:
  "well_formed t \<Longrightarrow> well_formed (set_column t key v)"
  by (auto simp: well_formed_def set_column_def list_all_iff)

lemma columns_set_column:
  "set (columns (set_column t key v)) = insert key (set (columns t))"
  by (auto simp: set_column_def)

lemma hd_columns_set_column:
  "columns t \<noteq> [] \<Longrightarrow>
   columns (set_column t key v) \<noteq> [] \<and> hd (columns (set_column t key v)) = hd (columns t)"
  by (auto simp: set_column_def)

lemma labels_set_column:
  "map fst (rows (set_column t key v)) = map fst (rows t)"
  by (auto simp: set_column_def case_prod_unfold)

lemma fill_loop_result:
  assumes "columns t \<noteq> []" and "well_formed t"
  shows "\<exists>t'. fill_loop lcl cs t = Inr t' \<and> well_formed t' \<and>
    map fst (rows t') = map fst (rows t) \<and>
    set (columns t') = set (columns t) \<union> {(c, snd (hd (columns t))) |c. c \<in> set cs \<and> c \<notin> set lcl} \<and>
    (\<forall>k col. cell t' k col =
       (if col \<in> {(c, snd (hd (columns t))) |c. c \<in> set cs \<and> c \<notin> set lcl}
        then (if k \<in> fst ` set (rows t) then Some None else None)
        else cell t k col))"
  using assms
proof (induction cs arbitrary: t)
  case Nil
  then show ?case by simp
next
  case (Cons c cs)
  show ?case
  proof (cases "c \<in> set lcl")
    case True
    with Cons.IH [OF Cons.prems] show ?thesis
      by auto
  next
    case False
    let ?key = "(c, snd (hd (columns t)))"
    let ?t1 = "set_column t ?key None"
    from Cons.prems(1) obtain col0 rest where cols: "columns t = col0 # rest"
      by (cases "columns t") auto
    from hd_columns_set_column [OF Cons.prems(1)]
    have ne1: "columns ?t1 \<noteq> []" and hd1: "hd (columns ?t1) = hd (columns t)"
      by simp_all
    have wf1: "well_formed ?t1"
      using Cons.prems(2) by (rule well_formed_set_column)
    from Cons.IH [OF ne1 wf1] obtain t' where
      res: "fill_loop lcl cs ?t1 = Inr t'" and wf': "well_formed t'"
      and lab: "map fst (rows t') = map fst (rows ?t1)"
      and cs': "set (columns t') = set (columns ?t1) \<union>
          {(c, snd (hd (columns ?t1))) |c. c \<in> set cs \<and> c \<notin> set lcl}"
      and cell': "\<forall>k col. cell t' k col =
         (if col \<in> {(c, snd (hd (columns ?t1))) |c. c \<in> set cs \<and> c \<notin> set lcl}
          then (if k \<in> fst ` set (rows ?t1) then Some None else None)
          else cell ?t1 k col)"
      by blast
    have lab1: "map fst (rows ?t1) = map fst (rows t)"
      by (rule labels_set_column)
    then have img: "fst ` set (rows ?t1) = fst ` set (rows t)"
      by (metis set_map)
    have step: "fill_loop lcl (c # cs) t = Inr t'"
      using False cols res by simp
    have 1: "map fst (rows t') = map fst (rows t)"
      using lab lab1 by simp
    have 2: "set (columns t') = set (columns t) \<union>
        {(c', snd (hd (columns t))) |c'. c' \<in> set (c # cs) \<and> c' \<notin> set lcl}"
      using cs' False unfolding hd1 columns_set_column by auto
    have 3: "\<forall>k col. cell t' k col =
       (if col \<in> {(c', snd (hd (columns t))) |c'. c' \<in> set (c # cs) \<and> c' \<notin> set lcl}
        then (if k \<in> fst ` set (rows t) then Some None else None)
        else cell t k col)"
      using cell' False unfolding hd1 img cell_set_column [OF Cons.prems(2)] by auto
    from step wf' 1 2 3 show ?thesis by blast
  qed
qed

lemma map_insort_key:
  "map f (insort_key f x ys) = insort (f x) (map f ys)"
  by (induction ys) auto

lemma map_sort_key: "map f (sort_key f xs) = sort (map f xs)"
  by (induction xs) (simp_all add: map_insort_key)

lemma map_of_filter_key:
  "map_of (filter (\<lambda>p. fst p = k) zs) k = map_of zs k"
  by (induction zs) auto

lemma map_of_sort_key_fst: "map_of (sort_key fst zs) k = map_of zs k"
proof -
  have "map_of (sort_key fst zs) k = map_of (filter (\<lambda>p. fst p = k) (sort_key fst zs)) k"
    by (simp only: map_of_filter_key)
  also have "\<dots> = map_of (filter (\<lambda>p. fst p = k) zs) k"
    by (simp only: sort_key_stable)
  finally show ?thesis
    by (simp only: map_of_filter_key)
qed

lemma cell_sort_index_columns:
  assumes "well_formed t"
  shows "cell (sort_index_columns t) k col = cell t k col"
proof (cases "map_of (rows t) k")
  case None
  then show ?thesis
    by (simp add: cell_def sort_index_columns_def map_of_rows_map)
next
  case (Some xs)
  then have "(k, xs) \<in> set (rows t)" by (rule map_of_SomeD)
  then have len: "length xs = length (columns t)"
    using assms by (rule well_formedD [rotated])
  let ?zs = "sort_key fst (zip (columns t) xs)"
  have "sort (columns t) = map fst ?zs"
    using len by (simp add: map_sort_key)
  then have "zip (sort (columns t)) (map snd ?zs) = ?zs"
    by (simp add: zip_map_fst_snd)
  then have "map_of (zip (sort (columns t)) (map snd ?zs)) col = map_of (zip (columns t) xs) col"
    by (simp only: map_of_sort_key_fst)
  with Some show ?thesis
    by (simp add: cell_def sort_index_columns_def map_of_rows_map)
qed

lemma sorted_map_fst:
  fixes cs :: "('a::linorder \<times> 'b::linorder) list"
  shows "sorted cs \<Longrightarrow> sorted (map fst cs)"
  by (induction cs) (auto simp: less_eq_prod_def)

lemma group_df_well_formed:
  "well_formed (group_df gsum fr) \<and> (fr \<noteq> [] \<longrightarrow> columns (group_df gsum fr) \<noteq> [])"
proof -
  have "set (columns (group_df gsum fr)) = (\<lambda>r. (Currency r, row_League r)) ` snd ` set fr"
    by (simp add: group_df_def Let_def image_image)
  then have "fr \<noteq> [] \<longrightarrow> set (columns (group_df gsum fr)) \<noteq> {}"
    by simp
  then have "fr \<noteq> [] \<longrightarrow> columns (group_df gsum fr) \<noteq> []"
    by (simp only: set_empty)
  moreover have "well_formed (group_df gsum fr)"
    by (simp add: well_formed_def group_df_def Let_def list_all_iff)
  ultimately show ?thesis by simp
qed

lemma labels_sort_index_columns:
  "map fst (rows (sort_index_columns t)) = map fst (rows t)"
  by (simp add: sort_index_columns_def case_prod_unfold comp_def)

text \<open>
  C7: on a well-formed table with at least one column (every grouped table of a
  non-empty extraction is one, \<open>group_df_well_formed\<close>) \<open>fill_league_currency\<close> returns a
  table with the same row labels, whose columns are those of the table together with
  one column for each listed currency it lacked; every listed currency has a column;
  the columns are in ascending order of their labels, so of their currency names; the
  cells of the columns it had are unchanged, and the cells of the added columns are NaN
  in every row.
\<close>

theorem fill_league_currency_aligns:
  assumes "columns t \<noteq> []" and "well_formed t"
  shows "\<exists>t'. fill_league_currency t latest_currency_list = Inr t' \<and>
    map fst (rows t') = map fst (rows t) \<and>
    set latest_currency_list \<subseteq> fst ` set (columns t') \<and>
    set (columns t') = set (columns t) \<union> added_columns t latest_currency_list \<and>
    sorted (columns t') \<and> sorted (map fst (columns t')) \<and>
    (\<forall>k col. col \<in> set (columns t) \<longrightarrow> cell t' k col = cell t k col) \<and>
    (\<forall>k col. col \<in> added_columns t latest_currency_list \<longrightarrow> k \<in> fst ` set (rows t) \<longrightarrow>
       cell t' k col = Some None)"
proof -
  let ?lcl = "map fst (columns t)"
  let ?new = "{(c, snd (hd (columns t))) |c. c \<in> set latest_currency_list \<and> c \<notin> set ?lcl}"
  have new: "?new = added_columns t latest_currency_list"
    by (simp add: added_columns_def)
  from fill_loop_result [OF assms, of ?lcl latest_currency_list] obtain t1 where
    loop: "fill_loop ?lcl latest_currency_list t = Inr t1" and wf1: "well_formed t1"
    and lab1: "map fst (rows t1) = map fst (rows t)"
    and cols1: "set (columns t1) = set (columns t) \<union> ?new"
    and cell1: "\<forall>k col. cell t1 k col =
       (if col \<in> ?new then (if k \<in> fst ` set (rows t) then Some None else None)
        else cell t k col)"
    by blast
  let ?t' = "sort_index_columns t1"
  have res: "fill_league_currency t latest_currency_list = Inr ?t'"
    using loop by (simp add: fill_league_currency_def)
  have lab: "map fst (rows ?t') = map fst (rows t)"
    using lab1 by (simp only: labels_sort_index_columns)
  have cols: "set (columns ?t') = set (columns t) \<union> added_columns t latest_currency_list"
    using cols1 new by (simp add: sort_index_columns_def)
  have canon: "set latest_currency_list \<subseteq> fst ` set (columns ?t')"
  proof
    fix c assume c: "c \<in> set latest_currency_list"
    show "c \<in> fst ` set (columns ?t')"
    proof (cases "c \<in> fst ` set (columns t)")
      case True
      then show ?thesis unfolding cols by auto
    next
      case False
      with c have "(c, snd (hd (columns t))) \<in> added_columns t latest_currency_list"
        by (simp add: added_columns_def)
      then show ?thesis unfolding cols by force
    qed
  qed
  have srt: "sorted (columns ?t')"
    by (simp add: sort_index_columns_def)
  then have srt1: "sorted (map fst (columns ?t'))"
    by (rule sorted_map_fst)
  have old: "\<forall>k col. col \<in> set (columns t) \<longrightarrow> cell ?t' k col = cell t k col"
  proof (intro allI impI)
    fix k col assume "col \<in> set (columns t)"
    then have "col \<notin> ?new" by force
    with cell1 show "cell ?t' k col = cell t k col"
      by (simp only: cell_sort_index_columns [OF wf1] if_False)
  qed
  have added: "\<forall>k col. col \<in> added_columns t latest_currency_list \<longrightarrow>
      k \<in> fst ` set (rows t) \<longrightarrow> cell ?t' k col = Some None"
    using cell1 unfolding new cell_sort_index_columns [OF wf1] by simp
  from res lab canon cols srt srt1 old added show ?thesis
    by blast
qed

text \<open>A table with a currency outside the list, and a list with a currency the table lacks.\<close>

theorem fill_league_currency_aligns_witness:
  "fill_league_currency
     \<lparr>columns = [(''Exalted Orb'', ''Metamorph''), (''Divine Orb'', ''Metamorph'')],
      rows = [(0, [Some (150::real), None]), (1, [Some 155, Some 20])]\<rparr>
     [''Awakener Orb'', ''Exalted Orb''] =
   Inr \<lparr>columns = [(''Awakener Orb'', ''Metamorph''), (''Divine Orb'', ''Metamorph''),
                   (''Exalted Orb'', ''Metamorph'')],
        rows = [(0, [None, None, Some 150]), (1, [None, Some 20, Some 155])]\<rparr> \<and>
   sorted [''Awakener Orb'', ''Divine Orb'', ''Exalted Orb'']"
proof -
  let ?t = "\<lparr>columns = [(''Exalted Orb'', ''Metamorph''), (''Divine Orb'', ''Metamorph'')],
      rows = [(0, [Some (150::real), None]), (1, [Some 155, Some 20])]\<rparr>"
  let ?T = "\<lparr>columns = [(''Awakener Orb'', ''Metamorph''), (''Divine Orb'', ''Metamorph''),
                   (''Exalted Orb'', ''Metamorph'')],
        rows = [(0, [None, None, Some 150]), (1, [None, Some 20, Some (155::real)])]\<rparr>"
  have h1: "columns ?t \<noteq> []" by simp
  have h2: "well_formed ?t" by (simp add: well_formed_def)
  have e: "fill_league_currency ?t [''Awakener Orb'', ''Exalted Orb''] = Inr ?T"
    by code_simp
  from fill_league_currency_aligns [OF h1 h2, of "[''Awakener Orb'', ''Exalted Orb'']"]
  obtain t' where "fill_league_currency ?t [''Awakener Orb'', ''Exalted Orb''] = Inr t'"
    and "sorted (map fst (columns t'))"
    by blast
  with e have "sorted (map fst (columns ?T))" by simp
  with e show ?thesis by simp
qed

section \<open>Properties of get_data\<close>

lemma filter_label:
  "distinct (map fst ps) \<Longrightarrow>
   map snd (filter (\<lambda>(k', ys). k' = k) ps) =
     (case map_of ps k of None \<Rightarrow> [] | Some ys \<Rightarrow> [ys])"
proof (induction ps)
  case Nil
  then show ?case by simp
next
  case (Cons p ps)
  obtain k' ys where p: "p = (k', ys)" by (cases p)
  show ?case
  proof (cases "k' = k")
    case True
    with Cons.prems p have "k \<notin> fst ` set ps" by auto
    then have "filter (\<lambda>(k', ys). k' = k) ps = []"
      by (force simp: filter_empty_conv)
    with True p show ?thesis by simp
  next
    case False
    with Cons p show ?thesis by simp
  qed
qed

lemma concat_map_single: "concat (map (\<lambda>p. [g p]) ps) = map g ps"
  by (induction ps) auto

lemma join_distinct:
  assumes "distinct (map fst (rows other))" and "join t other = Inr t'"
  shows "columns t' = columns t @ columns other \<and>
    rows t' = map (\<lambda>(k, xs). (k, xs @ row_at other k)) (rows t)"
proof -
  have one: "(case map snd (filter (\<lambda>(k', ys). k' = k) (rows other)) of
          [] \<Rightarrow> [(k, xs @ replicate (length (columns other)) None)]
        | ms \<Rightarrow> map (\<lambda>ys. (k, xs @ ys)) ms) = [(k, xs @ row_at other k)]" for k xs
    unfolding filter_label [OF assms(1)] row_at_def
    by (simp split: option.splits)
  from assms(2) have t': "t' = \<lparr>columns = columns t @ columns other,
         rows = concat (map (\<lambda>(k, xs).
                   (case map snd (filter (\<lambda>(k', ys). k' = k) (rows other)) of
                      [] \<Rightarrow> [(k, xs @ replicate (length (columns other)) None)]
                    | ms \<Rightarrow> map (\<lambda>ys. (k, xs @ ys)) ms))
                 (rows t))\<rparr>"
    by (simp add: join_def split: if_splits)
  have "rows t' = concat (map (\<lambda>(k, xs). [(k, xs @ row_at other k)]) (rows t))"
    unfolding t' by (simp only: one table.simps)
  also have "\<dots> = map (\<lambda>(k, xs). (k, xs @ row_at other k)) (rows t)"
    by (simp only: case_prod_unfold concat_map_single)
  finally show ?thesis
    unfolding t' by simp
qed

lemma fill_loop_labels:
  "fill_loop lcl cs t = Inr t' \<Longrightarrow> map fst (rows t') = map fst (rows t)"
proof (induction cs arbitrary: t)
  case Nil
  then show ?case by simp
next
  case (Cons c cs)
  show ?case
  proof (cases "c \<in> set lcl")
    case True
    with Cons show ?thesis by simp
  next
    case False
    with Cons.prems obtain col0 rest where "columns t = col0 # rest"
      and "fill_loop lcl cs (set_column t (c, snd col0) None) = Inr t'"
      by (auto split: list.splits)
    with Cons.IH show ?thesis
      by (simp add: labels_set_column)
  qed
qed

lemma fill_league_currency_labels:
  "fill_league_currency t lc = Inr t' \<Longrightarrow> map fst (rows t') = map fst (rows t)"
  by (auto simp: fill_league_currency_def labels_sort_index_columns
      split: sum.splits dest: fill_loop_labels)

lemma league_table_labels:
  assumes "league_table td fs gsum lc p = Inr a"
  shows "\<exists>fr. extract_df td fs p = Inr fr \<and>
    map fst (rows a) = sort (remdups (map (\<lambda>(i, r). row_Date r) fr))"
proof -
  from assms obtain fr where fr: "extract_df td fs p = Inr fr"
    and a: "fill_league_currency (group_df gsum fr) lc = Inr a"
    by (auto simp: league_table_def split: sum.splits)
  have "map fst (rows (group_df gsum fr)) = sort (remdups (map (\<lambda>(i, r). row_Date r) fr))"
    by (simp add: group_df_def Let_def comp_def case_prod_unfold)
  with fill_league_currency_labels [OF a] fr show ?thesis by simp
qed

lemma league_table_distinct:
  assumes "league_table td fs gsum lc p = Inr a"
  shows "distinct (map fst (rows a))"
  using league_table_labels [OF assms] by auto

lemma join_loop_rows:
  "join_loop td fs gsum lc ps t = Inr t' \<Longrightarrow>
   \<exists>as. map (league_table td fs gsum lc) ps = map Inr as \<and>
     columns t' = columns t @ concat (map columns as) \<and>
     rows t' = map (\<lambda>(k, xs). (k, xs @ concat (map (\<lambda>b. row_at b k) as))) (rows t)"
proof (induction ps arbitrary: t)
  case Nil
  then show ?case by (simp add: case_prod_unfold)
next
  case (Cons p ps)
  from Cons.prems obtain g t1 where g: "league_table td fs gsum lc p = Inr g"
    and t1: "join t g = Inr t1" and rest: "join_loop td fs gsum lc ps t1 = Inr t'"
    by (auto split: sum.splits)
  from join_distinct [OF league_table_distinct [OF g] t1]
  have c1: "columns t1 = columns t @ columns g"
    and r1: "rows t1 = map (\<lambda>(k, xs). (k, xs @ row_at g k)) (rows t)"
    by simp_all
  from Cons.IH [OF rest] obtain as where as: "map (league_table td fs gsum lc) ps = map Inr as"
    and c': "columns t' = columns t1 @ concat (map columns as)"
    and r': "rows t' = map (\<lambda>(k, xs). (k, xs @ concat (map (\<lambda>b. row_at b k) as))) (rows t1)"
    by blast
  have "map (league_table td fs gsum lc) (p # ps) = map Inr (g # as)"
    using g as by simp
  moreover have "columns t' = columns t @ concat (map columns (g # as))"
    using c' c1 by simp
  moreover have "rows t' =
      map (\<lambda>(k, xs). (k, xs @ concat (map (\<lambda>b. row_at b k) (g # as)))) (rows t)"
    unfolding r' r1 by (simp add: case_prod_unfold)
  ultimately show ?case by blast
qed

lemma row_at_absent:
  "k \<notin> fst ` set (rows b) \<Longrightarrow> row_at b k = replicate (length (columns b)) None"
proof -
  assume "k \<notin> fst ` set (rows b)"
  then have "map_of (rows b) k = None"
    by (simp add: map_of_eq_None_iff)
  then show ?thesis
    by (simp add: row_at_def)
qed

lemma rows_by_label:
  assumes "distinct (map fst (rows a))"
  shows "map (\<lambda>(k, xs). (k, xs @ f k)) (rows a) =
    map (\<lambda>k. (k, row_at a k @ f k)) (map fst (rows a))"
proof -
  have "xs = row_at a k" if "(k, xs) \<in> set (rows a)" for k xs
    using that assms by (simp add: row_at_def)
  then show ?thesis
    by (auto simp: case_prod_unfold)
qed

text \<open>
  C1, as the code has it: \<open>get_data\<close> left-joins the tables of the later catalog files,
  one after the other, onto the table of the first catalog file. When it returns, every
  file has given a table (\<open>a\<close> for the first, \<open>as\<close> for the others), and in the joined
  table \<open>tj\<close>
  \<^item> the row labels are the elapsed times of the first file, ascending, each once;
  \<^item> the columns are those of \<open>a\<close>, then those of each table of \<open>as\<close>, in catalog order;
  \<^item> the row labelled \<open>k\<close> is made of each table's own row at \<open>k\<close>, and of NaN in all the
    columns of a table that has no row at \<open>k\<close>.
  An elapsed time that the first file lacks labels no row, whichever other files have
  it. \<open>get_data\<close> returns \<open>tj\<close> with its rows relabelled 0, 1, 2, ...
\<close>

theorem get_data_left_join:
  assumes "get_data td fs gsum files lc = Inr t"
  shows "\<exists>a as fr tj.
    map (league_table td fs gsum lc) (map File files) = map Inr (a # as) \<and>
    extract_df td fs (File (hd files)) = Inr fr \<and>
    get_data_joined td fs gsum files lc = Inr tj \<and>
    map fst (rows tj) = sort (remdups (map (\<lambda>(i, r). row_Date r) fr)) \<and>
    columns tj = concat (map columns (a # as)) \<and>
    rows tj = map (\<lambda>k. (k, concat (map (\<lambda>b. row_at b k) (a # as)))) (map fst (rows a)) \<and>
    (\<forall>b\<in>set (a # as). \<forall>k. k \<notin> fst ` set (rows b) \<longrightarrow>
       row_at b k = replicate (length (columns b)) None) \<and>
    t = reset_index tj \<and>
    columns t = columns tj \<and>
    map snd (rows t) = map snd (rows tj) \<and>
    map fst (rows t) = map int [0..<length (rows tj)]"
proof -
  from assms obtain tj where tj: "get_data_joined td fs gsum files lc = Inr tj"
    and t: "t = reset_index tj"
    by (auto simp: get_data_def split: sum.splits)
  from tj obtain r0 rest a where files: "files = r0 # rest"
    and a: "league_table td fs gsum lc (File r0) = Inr a"
    and loop: "join_loop td fs gsum lc (map File rest) a = Inr tj"
    by (auto simp: get_data_joined_def split: list.splits sum.splits)
  from join_loop_rows [OF loop] obtain as where
    as: "map (league_table td fs gsum lc) (map File rest) = map Inr as"
    and cols: "columns tj = columns a @ concat (map columns as)"
    and rws: "rows tj = map (\<lambda>(k, xs). (k, xs @ concat (map (\<lambda>b. row_at b k) as))) (rows a)"
    by blast
  from league_table_labels [OF a] obtain fr where fr: "extract_df td fs (File r0) = Inr fr"
    and lab: "map fst (rows a) = sort (remdups (map (\<lambda>(i, r). row_Date r) fr))"
    by blast
  have 1: "map (league_table td fs gsum lc) (map File files) = map Inr (a # as)"
    using files a as by simp
  have 2: "extract_df td fs (File (hd files)) = Inr fr"
    using files fr by simp
  have 3: "map fst (rows tj) = sort (remdups (map (\<lambda>(i, r). row_Date r) fr))"
    unfolding rws using lab by (simp add: case_prod_unfold comp_def)
  have 4: "columns tj = concat (map columns (a # as))"
    using cols by simp
  have 5: "rows tj = map (\<lambda>k. (k, concat (map (\<lambda>b. row_at b k) (a # as)))) (map fst (rows a))"
    unfolding rws rows_by_label [OF league_table_distinct [OF a]] by simp
  have 6: "\<forall>b\<in>set (a # as). \<forall>k. k \<notin> fst ` set (rows b) \<longrightarrow>
       row_at b k = replicate (length (columns b)) None"
    by (simp add: row_at_absent)
  have 7: "columns t = columns tj" "map snd (rows t) = map snd (rows tj)"
    "map fst (rows t) = map int [0..<length (rows tj)]"
    unfolding t by (simp_all add: reset_index_def)
  from 1 2 tj 3 4 5 6 t 7 show ?thesis
    by blast
qed

text \<open>
  Metamorph first, Delirium second: the elapsed time 1 of Metamorph, which Delirium
  lacks, is a row with NaN in the columns of Delirium.
\<close>

theorem get_data_left_join_witness:
  "get_data example_td example_fs example_sum
     [\<lparr>League = ''poe/Metamorph'', Date = 18243,
       File = ''poe/Metamorph.2019-12-13.currency.csv''\<rparr>,
      \<lparr>League = ''poe/Delirium'', Date = 18334,
       File = ''poe/Delirium.2020-03-13.currency.csv''\<rparr>]
     [''Awakener Orb'', ''Exalted Orb''] =
   Inr \<lparr>columns =
          [(''Awakener Orb'', ''Metamorph''), (''Exalted Orb'', ''Metamorph''),
           (''Awakener Orb'', ''Delirium''), (''Exalted Orb'', ''Delirium'')],
        rows = [(0, [None, Some 150, Some 300, Some 120]),
                (1, [None, Some 155, None, None])]\<rparr> \<and>
   get_data_joined example_td example_fs example_sum
     [\<lparr>League = ''poe/Metamorph'', Date = 18243,
       File = ''poe/Metamorph.2019-12-13.currency.csv''\<rparr>,
      \<lparr>League = ''poe/Delirium'', Date = 18334,
       File = ''poe/Delirium.2020-03-13.currency.csv''\<rparr>]
     [''Awakener Orb'', ''Exalted Orb''] =
   Inr \<lparr>columns =
          [(''Awakener Orb'', ''Metamorph''), (''Exalted Orb'', ''Metamorph''),
           (''Awakener Orb'', ''Delirium''), (''Exalted Orb'', ''Delirium'')],
        rows = [(0, [None, Some 150, Some 300, Some 120]),
                (1, [None, Some 155, None, None])]\<rparr>"
proof -
  let ?files = "[\<lparr>League = ''poe/Metamorph'', Date = 18243,
       File = ''poe/Metamorph.2019-12-13.currency.csv''\<rparr>,
      \<lparr>League = ''poe/Delirium'', Date = 18334,
       File = ''poe/Delirium.2020-03-13.currency.csv''\<rparr>]"
  let ?lc = "[''Awakener Orb'', ''Exalted Orb'']"
  let ?T = "\<lparr>columns =
          [(''Awakener Orb'', ''Metamorph''), (''Exalted Orb'', ''Metamorph''),
           (''Awakener Orb'', ''Delirium''), (''Exalted Orb'', ''Delirium'')],
        rows = [(0, [None, Some 150, Some 300, Some 120]),
                (1, [None, Some (155::real), None, None])]\<rparr>"
  have h: "get_data example_td example_fs example_sum ?files ?lc = Inr ?T"
    by code_simp
  from get_data_left_join [OF h] obtain tj where
    tj: "get_data_joined example_td example_fs example_sum ?files ?lc = Inr tj"
    and cols: "columns ?T = columns tj"
    and cells: "map snd (rows ?T) = map snd (rows tj)"
    by blast
  have "get_data_joined example_td example_fs example_sum ?files ?lc = Inr ?T"
    by code_simp
  with h show ?thesis by simp
qed

text \<open>
  C1 as stated fails on the example catalog, Delirium first: the table of Metamorph has
  rows at the elapsed times 0 and 1, the joined table has the row 0 alone.
\<close>

theorem get_data_outer_join_counterexample:
  "league_table example_td example_fs example_sum [''Awakener Orb'', ''Exalted Orb'']
     ''poe/Metamorph.2019-12-13.currency.csv'' =
   Inr \<lparr>columns = [(''Awakener Orb'', ''Metamorph''), (''Exalted Orb'', ''Metamorph'')],
        rows = [(0, [None, Some 150]), (1, [None, Some 155])]\<rparr> \<and>
   get_data_joined example_td example_fs example_sum
     [\<lparr>League = ''poe/Delirium'', Date = 18334,
       File = ''poe/Delirium.2020-03-13.currency.csv''\<rparr>,
      \<lparr>League = ''poe/Metamorph'', Date = 18243,
       File = ''poe/Metamorph.2019-12-13.currency.csv''\<rparr>]
     [''Awakener Orb'', ''Exalted Orb''] =
   Inr \<lparr>columns =
          [(''Awakener Orb'', ''Delirium''), (''Exalted Orb'', ''Delirium''),
           (''Awakener Orb'', ''Metamorph''), (''Exalted Orb'', ''Metamorph'')],
        rows = [(0, [Some 300, Some 120, None, Some 150])]\<rparr> \<and>
   get_data example_td example_fs example_sum
     [\<lparr>League = ''poe/Delirium'', Date = 18334,
       File = ''poe/Delirium.2020-03-13.currency.csv''\<rparr>,
      \<lparr>League = ''poe/Metamorph'', Date = 18243,
       File = ''poe/Metamorph.2019-12-13.currency.csv''\<rparr>]
     [''Awakener Orb'', ''Exalted Orb''] =
   Inr \<lparr>columns =
          [(''Awakener Orb'', ''Delirium''), (''Exalted Orb'', ''Delirium''),
           (''Awakener Orb'', ''Metamorph''), (''Exalted Orb'', ''Metamorph'')],
        rows = [(0, [Some 300, Some 120, None, Some 150])]\<rparr>"
  by code_simp

end
